theory Spec2Isabelle
  imports Main
begin

section \<open>Strings, characters and Python's string methods\<close>

text \<open>
  A Python \<open>str\<close> is modelled as a \<open>string\<close> (a list of 8-bit characters), read as ASCII.
  The character classes are the ASCII part of what Python's \<open>str.isspace\<close>, \<open>\<^verbatim>\<open>\s\<close>\<close>,
  \<open>\<^verbatim>\<open>\w\<close>\<close>, \<open>\<^verbatim>\<open>\d\<close>\<close>, \<open>str.lower\<close> and \<open>str.upper\<close> use; a character outside ASCII is
  neither a space nor a word character here and has no case. On ASCII strings the
  functions below compute what Python computes; what Python does with other characters
  (letters such as U+00E9, which it keeps as word characters, or U+0130, whose lower case
  is two characters) is outside the model, and a statement that depends on the character
  classes is made for ASCII strings.
\<close>

definition is_ascii :: "string \<Rightarrow> bool" where
  "is_ascii s = list_all (\<lambda>c. \<not> digit7 c) s"

definition is_space :: "char \<Rightarrow> bool" where
  "is_space c = (c \<in> set [CHR 0x09, CHR 0x0A, CHR 0x0B, CHR 0x0C, CHR 0x0D,
                            CHR 0x1C, CHR 0x1D, CHR 0x1E, CHR 0x1F, CHR '' ''])"

definition is_upper :: "char \<Rightarrow> bool" where
  "is_upper c = (c \<in> set ''ABCDEFGHIJKLMNOPQRSTUVWXYZ'')"

definition is_lower :: "char \<Rightarrow> bool" where
  "is_lower c = (c \<in> set ''abcdefghijklmnopqrstuvwxyz'')"

definition is_digit :: "char \<Rightarrow> bool" where
  "is_digit c = (c \<in> set ''0123456789'')"

definition is_alpha :: "char \<Rightarrow> bool" where
  "is_alpha c = (is_upper c \<or> is_lower c)"

text \<open>The class \<open>\<^verbatim>\<open>\w\<close>\<close> of the \<open>re\<close> module: letters, digits and the underscore.\<close>

definition is_word :: "char \<Rightarrow> bool" where
  "is_word c = (is_alpha c \<or> is_digit c \<or> c = CHR ''_'')"

definition lower_char :: "char \<Rightarrow> char" where
  "lower_char c =
     (case map_of (zip ''ABCDEFGHIJKLMNOPQRSTUVWXYZ'' ''abcdefghijklmnopqrstuvwxyz'') c of
        Some d \<Rightarrow> d | None \<Rightarrow> c)"

definition upper_char :: "char \<Rightarrow> char" where
  "upper_char c =
     (case map_of (zip ''abcdefghijklmnopqrstuvwxyz'' ''ABCDEFGHIJKLMNOPQRSTUVWXYZ'') c of
        Some d \<Rightarrow> d | None \<Rightarrow> c)"

text \<open>\<open>s.lower()\<close> and \<open>s.upper()\<close>.\<close>

definition lower :: "string \<Rightarrow> string" where
  "lower s = map lower_char s"

definition upper :: "string \<Rightarrow> string" where
  "upper s = map upper_char s"

text \<open>\<open>s.lstrip()\<close>, \<open>s.rstrip()\<close> and \<open>s.strip()\<close> without argument.\<close>

definition lstrip :: "string \<Rightarrow> string" where
  "lstrip s = dropWhile is_space s"

definition rstrip :: "string \<Rightarrow> string" where
  "rstrip s = rev (dropWhile is_space (rev s))"

definition strip :: "string \<Rightarrow> string" where
  "strip s = rstrip (lstrip s)"

text \<open>
  \<open>s.split()\<close> without argument: the maximal runs of non-space characters. The first
  argument is the word being read, reversed.
\<close>

fun split_ws :: "string \<Rightarrow> string \<Rightarrow> string list" where
  "split_ws w [] = (if w = [] then [] else [rev w])"
| "split_ws w (c # cs) =
     (if is_space c then (if w = [] then split_ws [] cs else rev w # split_ws [] cs)
      else split_ws (c # w) cs)"

definition split :: "string \<Rightarrow> string list" where
  "split s = split_ws [] s"

text \<open>\<open>sep.join(xs)\<close>.\<close>

fun join :: "string \<Rightarrow> string list \<Rightarrow> string" where
  "join sep [] = []"
| "join sep [x] = x"
| "join sep (x # y # ys) = x @ sep @ join sep (y # ys)"

text \<open>\<open>s.startswith(p)\<close>, \<open>s.endswith(p)\<close> and the substring test \<open>p in s\<close>.\<close>

fun startswith :: "string \<Rightarrow> string \<Rightarrow> bool" where
  "startswith s [] = True"
| "startswith [] (p # ps) = False"
| "startswith (c # cs) (p # ps) = (c = p \<and> startswith cs ps)"

definition endswith :: "string \<Rightarrow> string \<Rightarrow> bool" where
  "endswith s p = startswith (rev s) (rev p)"

fun contains :: "string \<Rightarrow> string \<Rightarrow> bool" where
  "contains [] p = (p = [])"
| "contains (c # cs) p = (startswith (c # cs) p \<or> contains cs p)"

text \<open>
  \<open>re.sub(r'\s+', ' ', s)\<close>: every maximal run of space characters becomes one blank.
  The flag says that the previous character was a space.
\<close>

fun collapse_ws :: "bool \<Rightarrow> string \<Rightarrow> string" where
  "collapse_ws in_run [] = []"
| "collapse_ws in_run (c # cs) =
     (if is_space c then (if in_run then collapse_ws True cs else CHR '' '' # collapse_ws True cs)
      else c # collapse_ws False cs)"

section \<open>Errors and the random source\<close>

text \<open>The exceptions that the modelled code can raise.\<close>

datatype error = IndexError | ValueError

text \<open>
  The module \<open>random\<close> is modelled by an explicit source of draws that every random
  operation consumes and returns: a list of naturals, each reduced modulo the bound asked
  for; an exhausted list keeps drawing 0. Every outcome of \<open>random.shuffle\<close>,
  \<open>random.sample\<close> and \<open>random.choice\<close> is the result for some source.
\<close>

type_synonym rng = "nat list"

fun randbelow :: "nat \<Rightarrow> rng \<Rightarrow> nat \<times> rng" where
  "randbelow n [] = (0, [])"
| "randbelow n (r # rs) = (r mod n, rs)"

text \<open>\<open>random.choice(xs)\<close>; the code only calls it on non-empty literal lists.\<close>

definition random_choice :: "'a list \<Rightarrow> rng \<Rightarrow> 'a \<times> rng" where
  "random_choice xs g = (case randbelow (length xs) g of (j, g') \<Rightarrow> (xs ! j, g'))"

text \<open>
  \<open>random.shuffle(xs)\<close>: for \<open>i\<close> from \<open>len(xs) - 1\<close> down to 1, swap \<open>xs[i]\<close> with
  \<open>xs[j]\<close> for a drawn \<open>j \<le> i\<close>.
\<close>

definition swap :: "'a list \<Rightarrow> nat \<Rightarrow> nat \<Rightarrow> 'a list" where
  "swap xs i j = xs[i := xs ! j, j := xs ! i]"

fun shuffle_from :: "nat \<Rightarrow> 'a list \<Rightarrow> rng \<Rightarrow> 'a list \<times> rng" where
  "shuffle_from 0 xs g = (xs, g)"
| "shuffle_from (Suc i) xs g =
     (case randbelow (Suc (Suc i)) g of (j, g') \<Rightarrow> shuffle_from i (swap xs (Suc i) j) g')"

definition random_shuffle :: "'a list \<Rightarrow> rng \<Rightarrow> 'a list \<times> rng" where
  "random_shuffle xs g = shuffle_from (length xs - 1) xs g"

text \<open>
  \<open>random.sample(pool, k)\<close>: \<open>k\<close> elements at distinct positions, in the order drawn;
  \<open>ValueError\<close> when the pool has fewer than \<open>k\<close> elements.
\<close>

fun random_sample :: "'a list \<Rightarrow> nat \<Rightarrow> rng \<Rightarrow> error + ('a list \<times> rng)" where
  "random_sample pool 0 g = Inr ([], g)"
| "random_sample pool (Suc k) g =
     (if pool = [] then Inl ValueError
      else case randbelow (length pool) g of (j, g') \<Rightarrow>
        (case random_sample (take j pool @ drop (Suc j) pool) k g' of
           Inl e \<Rightarrow> Inl e
         | Inr (rest, g'') \<Rightarrow> Inr (pool ! j # rest, g'')))"

section \<open>Decoy sampling: \<open>_safe_sample\<close>\<close>

text \<open>
  \<open>[x for x in pool if not (x in seen or seen.add(x))]\<close>: the first occurrence of every
  element, in order.
\<close>

fun dedup_seen :: "'a set \<Rightarrow> 'a list \<Rightarrow> 'a list" where
  "dedup_seen seen [] = []"
| "dedup_seen seen (x # xs) =
     (if x \<in> seen then dedup_seen seen xs else x # dedup_seen (insert x seen) xs)"

text \<open>The loop over \<open>fallback_pool\<close>, which stops as soon as \<open>result\<close> holds \<open>k\<close> items.\<close>

fun fill_from_fallback :: "nat \<Rightarrow> string list \<Rightarrow> string list \<Rightarrow> string list" where
  "fill_from_fallback k result [] = result"
| "fill_from_fallback k result (item # items) =
     (if length result \<ge> k then result
      else if item \<in> set result then fill_from_fallback k result items
      else fill_from_fallback k (result @ [item]) items)"

text \<open>The loop \<open>while len(result) < k: result.append(filler)\<close>.\<close>

function pad_with :: "string \<Rightarrow> nat \<Rightarrow> string list \<Rightarrow> string list" where
  "pad_with filler k result =
     (if length result < k then pad_with filler k (result @ [filler]) else result)"
  by pat_completeness auto
termination
  by (relation "measure (\<lambda>(filler, k, result). k - length result)") auto

declare pad_with.simps [simp del]

definition safe_sample ::
  "string list \<Rightarrow> nat \<Rightarrow> string list \<Rightarrow> rng \<Rightarrow> error + (string list \<times> rng)" where
  "safe_sample pool k fallback_pool g =
     (let pool1 = filter (\<lambda>p. p \<noteq> [] \<and> strip p \<noteq> []) pool;
          pool2 = dedup_seen {} pool1
      in if length pool2 \<ge> k then random_sample pool2 k g
         else Inr (pad_with ''None'' k (fill_from_fallback k pool2 fallback_pool), g))"

section \<open>The optional linguistic backend\<close>

text \<open>
  The module loads spaCy when it is installed and sets \<open>nlp = None\<close> otherwise. The backend
  is a parameter of the model: \<open>None\<close> when spaCy is absent, otherwise what the four uses
  of \<open>nlp\<close> deliver. A field that yields \<open>None\<close> stands for a call that raised.
  \<^item> \<open>token_lemmas s\<close>: \<open>[tok.lemma_ for tok in nlp(s)]\<close>;
  \<^item> \<open>person_entities s\<close>: the texts of the entities of \<open>nlp(s)\<close> labelled \<open>PERSON\<close>;
  \<^item> \<open>verb_lemmas s\<close>: the lemmas of the tokens of \<open>nlp(s)\<close> tagged \<open>VERB\<close> that are no
    auxiliaries;
  \<^item> \<open>subject_action story name\<close>: what the \<open>try\<close> block of
    \<open>_action_by_main_character\<close> returns, \<open>None\<close> also when it raises.
\<close>

record backend =
  token_lemmas :: "string \<Rightarrow> string list option"
  person_entities :: "string \<Rightarrow> string list option"
  verb_lemmas :: "string \<Rightarrow> string list option"
  subject_action :: "string \<Rightarrow> string \<Rightarrow> string option"

section \<open>Text normalisation: \<open>_normalize_text\<close>\<close>

text \<open>
  The first stage: strip both ends, delete every character that is neither a word
  character nor a space, replace every run of spaces by one blank, strip again and
  lower-case.
\<close>

definition clean_text :: "string \<Rightarrow> string" where
  "clean_text txt =
     lower (strip (collapse_ws False (filter (\<lambda>c. is_word c \<or> is_space c) (strip txt))))"

text \<open>The rule-based ending of the function: \<open>s[:-2]\<close> after "ed", \<open>s[:-3]\<close> after "ing".\<close>

definition strip_suffix :: "string \<Rightarrow> string" where
  "strip_suffix s =
     (if endswith s ''ed'' then take (length s - 2) s
      else if endswith s ''ing'' then take (length s - 3) s
      else s)"

definition normalize_text :: "backend option \<Rightarrow> string \<Rightarrow> string" where
  "normalize_text nlp txt =
     (if txt = [] then []
      else let s = clean_text txt
           in case (case nlp of None \<Rightarrow> None | Some b \<Rightarrow> token_lemmas b s) of
                Some toks \<Rightarrow>
                  (let lemmas = filter (\<lambda>l. l \<noteq> []) toks
                   in if lemmas \<noteq> [] then lower (join '' '' lemmas) else strip_suffix s)
              | None \<Rightarrow> strip_suffix s)"

section \<open>Story truncation: \<open>_truncate_story\<close>\<close>

text \<open>\<open>s.rfind(c)\<close>: the highest index of \<open>c\<close>, \<open>None\<close> for Python's \<open>-1\<close>.\<close>

fun rfind :: "char \<Rightarrow> string \<Rightarrow> nat option" where
  "rfind c [] = None"
| "rfind c (x # xs) =
     (case rfind c xs of Some i \<Rightarrow> Some (Suc i) | None \<Rightarrow> if x = c then Some 0 else None)"

text \<open>The slice \<open>xs[:n]\<close> for a Python integer \<open>n\<close>; a negative \<open>n\<close> counts from the end.\<close>

definition slice_to :: "int \<Rightarrow> 'a list \<Rightarrow> 'a list" where
  "slice_to n xs = (if 0 \<le> n then take (nat n) xs else take (length xs - nat (- n)) xs)"

definition truncate_story :: "string \<Rightarrow> int \<Rightarrow> string" where
  "truncate_story story word_limit =
     (let words = split story
      in if int (length words) \<le> word_limit then story
         else let truncated = join '' '' (slice_to word_limit words)
              in case rfind (CHR ''.'') truncated of
                   Some last_period \<Rightarrow> take (last_period + 1) truncated
                 | None \<Rightarrow> truncated @ ''...'')"



section \<open>Question records\<close>

text \<open>
  A question record is the dictionary with the keys \<open>'question'\<close>, \<open>'options'\<close> and
  \<open>'correct'\<close>. The options dictionary is an association list in insertion order; the
  value under \<open>'correct'\<close> is optional because some generators can leave it \<open>None\<close>.
\<close>

type_synonym dict = "(string \<times> string) list"

record quiz_question =
  question :: string
  options :: dict
  correct :: "string option"

text \<open>\<open>d[k] = v\<close>: an existing key keeps its position.\<close>

fun dict_set :: "string \<Rightarrow> string \<Rightarrow> dict \<Rightarrow> dict" where
  "dict_set k v [] = [(k, v)]"
| "dict_set k v ((k', v') # kvs) =
     (if k' = k then (k, v) # kvs else (k', v') # dict_set k v kvs)"

definition dict_keys :: "dict \<Rightarrow> string list" where
  "dict_keys d = map fst d"

definition dict_values :: "dict \<Rightarrow> string list" where
  "dict_values d = map snd d"

section \<open>The parser of the AI output: \<open>parse_quiz_questions\<close>\<close>

text \<open>\<open>s.split(d)\<close> for a one-character separator; the second argument is the piece being read, reversed.\<close>

fun split_char :: "char \<Rightarrow> string \<Rightarrow> string \<Rightarrow> string list" where
  "split_char d acc [] = [rev acc]"
| "split_char d acc (c # cs) =
     (if c = d then rev acc # split_char d [] cs else split_char d (c # acc) cs)"

text \<open>
  A literal of a case-insensitive pattern, given in lower case, matched at the start of
  \<open>s\<close>: the rest of \<open>s\<close> after it.
\<close>

definition match_ci :: "string \<Rightarrow> string \<Rightarrow> string option" where
  "match_ci lit s =
     (if lower (take (length lit) s) = lit then Some (drop (length lit) s) else None)"

text \<open>
  The block start: spaces, the word "Question" in any case, and a word boundary after it.
\<close>

definition is_question_line :: "string \<Rightarrow> bool" where
  "is_question_line line =
     (case match_ci ''question'' (dropWhile is_space line) of
        None \<Rightarrow> False
      | Some r \<Rightarrow> (case r of [] \<Rightarrow> True | c # _ \<Rightarrow> \<not> is_word c))"

fun group_blocks :: "string list \<Rightarrow> string list list \<Rightarrow> string list \<Rightarrow> string list list" where
  "group_blocks [] blocks current = (if current \<noteq> [] then blocks @ [current] else blocks)"
| "group_blocks (line # lines) blocks current =
     (if is_question_line line \<and> current \<noteq> []
      then group_blocks lines (blocks @ [current]) [line]
      else group_blocks lines blocks (current @ [line]))"

text \<open>
  The option pattern: spaces, a letter A to D in any case, spaces, one of \<open>)\<close>, \<open>.\<close>,
  \<open>:\<close>, spaces, and at least one more character up to the end of the line. It is applied
  to lines without newline and without trailing space, where the option text is what
  follows the spaces after the delimiter. The result is the letter and the text.
\<close>

definition is_choice_letter :: "char \<Rightarrow> bool" where
  "is_choice_letter c = (upper_char c \<in> set ''ABCD'')"

definition option_match :: "string \<Rightarrow> (char \<times> string) option" where
  "option_match l =
     (case dropWhile is_space l of
        [] \<Rightarrow> None
      | c # r1 \<Rightarrow>
          if is_choice_letter c then
            (case dropWhile is_space r1 of
               [] \<Rightarrow> None
             | d # r3 \<Rightarrow>
                 if d \<in> set '').:'' then
                   (let r4 = dropWhile is_space r3 in if r4 = [] then None else Some (c, r4))
                 else None)
          else None)"

text \<open>The index of the first line of the block that matches the option pattern.\<close>

fun find_option_index :: "string list \<Rightarrow> nat option" where
  "find_option_index [] = None"
| "find_option_index (l # ls) =
     (if option_match l \<noteq> None then Some 0 else map_option Suc (find_option_index ls))"

text \<open>
  The prefix removed from the question text: spaces, "Question" in any case, spaces,
  digits, spaces, an optional \<open>:\<close> or \<open>-\<close>, spaces; each part as long as possible.
\<close>

definition skip_delim :: "string \<Rightarrow> string" where
  "skip_delim s = (case s of [] \<Rightarrow> [] | c # cs \<Rightarrow> if c \<in> set '':-'' then cs else s)"

definition strip_question_prefix :: "string \<Rightarrow> string" where
  "strip_question_prefix s =
     (case match_ci ''question'' (dropWhile is_space s) of
        None \<Rightarrow> s
      | Some r1 \<Rightarrow>
          dropWhile is_space (skip_delim (dropWhile is_space (dropWhile is_digit
            (dropWhile is_space r1)))))"

text \<open>The loop that fills the options dictionary; a repeated letter overwrites.\<close>

fun collect_options :: "string list \<Rightarrow> dict \<Rightarrow> dict" where
  "collect_options [] opts = opts"
| "collect_options (l # ls) opts =
     (case option_match l of
        Some (c, txt) \<Rightarrow>
          collect_options ls (dict_set [upper_char c] (collapse_ws False (strip txt)) opts)
      | None \<Rightarrow> collect_options ls opts)"

text \<open>
  An answer pattern matched at the start of \<open>s\<close>: the literal in any case, spaces, an
  optional \<open>:\<close> or \<open>-\<close>, spaces, a letter A to D in any case. \<open>search_answer\<close> is
  \<open>re.search\<close>: the leftmost position where it matches.
\<close>

definition answer_at :: "string \<Rightarrow> string \<Rightarrow> char option" where
  "answer_at lit s =
     (case match_ci lit s of
        None \<Rightarrow> None
      | Some r \<Rightarrow>
          (case dropWhile is_space (skip_delim (dropWhile is_space r)) of
             [] \<Rightarrow> None
           | c # _ \<Rightarrow> if is_choice_letter c then Some c else None))"

fun search_answer :: "string \<Rightarrow> string \<Rightarrow> char option" where
  "search_answer lit [] = answer_at lit []"
| "search_answer lit (c # cs) =
     (case answer_at lit (c # cs) of Some x \<Rightarrow> Some x | None \<Rightarrow> search_answer lit cs)"

text \<open>The loop over the three answer patterns, in their order.\<close>

fun find_correct_letter :: "string list \<Rightarrow> string \<Rightarrow> string option" where
  "find_correct_letter [] block_text = None"
| "find_correct_letter (lit # lits) block_text =
     (case search_answer lit block_text of
        Some c \<Rightarrow> Some [upper_char c]
      | None \<Rightarrow> find_correct_letter lits block_text)"

definition answer_literals :: "string list" where
  "answer_literals = [''correct answer'', ''correct'', ''answer'']"

text \<open>
  What one iteration of the loop over the blocks computes before its final test: the
  question text, the options and the answer letter; \<open>None\<close> on the two \<open>continue\<close> paths.
\<close>

definition block_fields :: "string list \<Rightarrow> (string \<times> dict \<times> string option) option" where
  "block_fields block =
     (let b_lines = filter (\<lambda>l. l \<noteq> [] \<and> strip l \<noteq> []) block
      in if b_lines = [] then None
         else case find_option_index b_lines of
           None \<Rightarrow> None
         | Some opt_idx \<Rightarrow>
             (let question_text =
                    strip (strip_question_prefix (strip (join '' '' (take opt_idx b_lines))));
                  opts = collect_options (drop opt_idx b_lines) [];
                  correct_letter = find_correct_letter answer_literals (join [CHR 0x0A] b_lines)
              in Some (question_text, opts, correct_letter)))"

text \<open>The final test of the iteration and the record it appends.\<close>

definition parse_block :: "string list \<Rightarrow> quiz_question option" where
  "parse_block block =
     (case block_fields block of
        None \<Rightarrow> None
      | Some (question_text, opts, correct_letter) \<Rightarrow>
          (case correct_letter of
             None \<Rightarrow> None
           | Some letter \<Rightarrow>
               if question_text \<noteq> [] \<and> length opts = 4 \<and> letter \<noteq> [] \<and>
                  letter \<in> set (dict_keys opts)
               then Some \<lparr>question = question_text, options = opts, correct = Some letter\<rparr>
               else None))"

fun parse_blocks :: "string list list \<Rightarrow> quiz_question list \<Rightarrow> quiz_question list" where
  "parse_blocks [] questions = questions"
| "parse_blocks (block # blocks) questions =
     (case parse_block block of
        Some q \<Rightarrow> parse_blocks blocks (questions @ [q])
      | None \<Rightarrow> parse_blocks blocks questions)"

definition text_blocks :: "string \<Rightarrow> string list list" where
  "text_blocks txt =
     group_blocks (map rstrip (split_char (CHR 0x0A) [] (filter (\<lambda>c. c \<noteq> CHR 0x0D) txt))) [] []"

definition parse_quiz_questions :: "string \<Rightarrow> quiz_question list" where
  "parse_quiz_questions txt = (if txt = [] then [] else parse_blocks (text_blocks txt) [])"

section \<open>The game object and the story elements\<close>

text \<open>
  The part of the game object that the quiz pipeline reads: the linguistic backend, the
  number of questions per round (a count, 3 by default), and the order in which a Python
  \<open>set\<close> of strings is iterated. That order depends on the string hashes of the process
  and on the contents of the set; \<open>set_order\<close> maps the distinct elements of a set, in the
  order of their insertion, to the order in which the process iterates them.
\<close>

record game =
  nlp :: "backend option"
  num_questions_per_round :: nat
  set_order :: "string list \<Rightarrow> string list"

text \<open>\<open>list(set(xs))\<close>.\<close>

definition set_list :: "(string list \<Rightarrow> string list) \<Rightarrow> string list \<Rightarrow> string list" where
  "set_list order xs = order (dedup_seen {} xs)"

text \<open>
  The elements dictionary. Every field is optional, since the generators read the
  dictionary with \<open>elements.get\<close>; \<open>None\<close> is an absent key.
\<close>

record elements =
  el_names :: "string list option"
  el_actions :: "string list option"
  el_objects :: "string list option"
  el_places :: "string list option"
  el_sentences :: "string list option"
  el_first_sentence :: "string option"
  el_story_words :: "string list option"

definition OBJECT_WORDS :: "string list" where
  "OBJECT_WORDS = [
    ''amulet'', ''armor'', ''arrow'', ''artifact'', ''bag'', ''banner'', ''boat'', ''book'', ''bow'', ''box'',
    ''bracelet'', ''bridge'', ''brooch'', ''cabinet'', ''carriage'', ''castle'', ''cauldron'', ''cave'',
    ''chalice'', ''chest'', ''clock'', ''clue'', ''coin'', ''compass'', ''crown'', ''crystal'', ''dagger'',
    ''datapad'', ''desk'', ''device'', ''diary'', ''door'', ''dragon'', ''drone'', ''drum'', ''elixir'',
    ''engine'', ''envelope'', ''flute'', ''forest'', ''fountain'', ''gem'', ''goblet'', ''grimoire'',
    ''harp'', ''helmet'', ''hologram'', ''horse'', ''house'', ''idol'', ''jetpack'', ''journal'', ''key'',
    ''knight'', ''lamp'', ''lantern'', ''laser'', ''letter'', ''locket'', ''manuscript'', ''map'',
    ''mask'', ''medallion'', ''mirror'', ''monster'', ''mountain'', ''necklace'', ''note'', ''orb'',
    ''painting'', ''pendant'', ''photograph'', ''plate'', ''portal'', ''potion'', ''relic'', ''ring'',
    ''river'', ''robot'', ''rope'', ''runestone'', ''scepter'', ''scroll'', ''shield'', ''ship'',
    ''spaceship'', ''spear'', ''spellbook'', ''staff'', ''statue'', ''stone'', ''sword'', ''talisman'',
    ''tapestry'', ''telescope'', ''throne'', ''torch'', ''treasure'', ''tree'', ''wand'', ''waterfall'',
    ''whistle'', ''wizard'', ''bird'', ''cat'', ''chair'', ''dog'', ''flower'', ''table'']"

definition PLACE_WORDS :: "string list" where
  "PLACE_WORDS = [
    ''academy'', ''alley'', ''arena'', ''asteroid field'', ''asylum'', ''beach'', ''bunker'',
    ''canyon'', ''castle'', ''catacomb'', ''cathedral'', ''cave'', ''chamber'', ''chapel'',
    ''citadel'', ''city'', ''clearing'', ''coast'', ''cottage'', ''courtyard'', ''crypt'',
    ''desert'', ''dock'', ''dungeon'', ''estate'', ''factory'', ''farm'', ''field'', ''forest'',
    ''fortress'', ''galaxy'', ''garden'', ''glade'', ''harbor'', ''headquarters'', ''hill'',
    ''hospital'', ''house'', ''island'', ''jungle'', ''kingdom'', ''laboratory'', ''lair'',
    ''lake'', ''library'', ''mansion'', ''market'', ''meadow'', ''mine'', ''monastery'',
    ''mountain'', ''museum'', ''observatory'', ''ocean'', ''outpost'', ''palace'', ''path'',
    ''planet'', ''port'', ''prison'', ''realm'', ''river'', ''road'', ''ruins'', ''sanctuary'',
    ''school'', ''sewer'', ''shop'', ''space station'', ''stronghold'', ''swamp'', ''temple'',
    ''tomb'', ''tower'', ''town'', ''tunnel'', ''valley'', ''village'', ''volcano'', ''warehouse'']"

section \<open>Element extraction: \<open>extract_story_elements\<close>\<close>

text \<open>
  The sentence split on runs of \<open>.\<close>, \<open>!\<close> and \<open>?\<close>, with the pieces that are empty at
  either end as \<open>re.split\<close> returns them. The second argument is the piece being read,
  reversed; the flag says that the previous character was a terminator.
\<close>

definition is_sentence_end :: "char \<Rightarrow> bool" where
  "is_sentence_end c = (c \<in> set ''.!?'')"

fun split_sentences :: "string \<Rightarrow> bool \<Rightarrow> string \<Rightarrow> string list" where
  "split_sentences acc in_run [] = [rev acc]"
| "split_sentences acc in_run (c # cs) =
     (if is_sentence_end c
      then (if in_run then split_sentences acc True cs else rev acc # split_sentences [] True cs)
      else split_sentences (c # acc) False cs)"

text \<open>
  The name candidates: every match, from left to right, of a word boundary, a capital
  letter, two or more small letters and a word boundary. The flag says that the previous
  character is a word character.
\<close>

function find_names :: "bool \<Rightarrow> string \<Rightarrow> string list" where
  "find_names pw [] = []"
| "find_names pw (c # cs) =
     (if \<not> pw \<and> is_upper c \<and> 2 \<le> length (takeWhile is_lower cs) \<and>
         (case dropWhile is_lower cs of [] \<Rightarrow> True | d # _ \<Rightarrow> \<not> is_word d)
      then (c # takeWhile is_lower cs) # find_names True (dropWhile is_lower cs)
      else find_names (is_word c) cs)"
  by pat_completeness auto
termination
  by (relation "measure (\<lambda>(pw, s). length s)") (auto simp: length_dropWhile_le less_Suc_eq_le)

definition common_words :: "string list" where
  "common_words = [
    ''The'', ''This'', ''That'', ''They'', ''Then'', ''There'', ''These'', ''Those'',
    ''When'', ''Where'', ''What'', ''Who'', ''Why'', ''How'', ''And'', ''But'', ''Or'',
    ''So'', ''For'', ''As'', ''At'', ''By'', ''In'', ''On'', ''To'', ''With'', ''From'', ''A'', ''An'']"

definition titles :: "string list" where
  "titles = [
    ''Agent'', ''Captain'', ''Commander'', ''Dame'', ''Detective'', ''Dr'', ''General'', ''King'',
    ''Lady'', ''Lord'', ''Miss'', ''Mr'', ''Mrs'', ''Ms'', ''Officer'', ''Prince'', ''Princess'',
    ''Professor'', ''Queen'', ''Sergeant'', ''Sir'']"

text \<open>
  The loop over the candidates, which adds to \<open>combined_names\<close>; the set is kept as the
  list of its insertions.
\<close>

fun combine_names :: "string list \<Rightarrow> string list \<Rightarrow> string list" where
  "combine_names [] combined = combined"
| "combine_names (word # rest) combined =
     (if word \<in> set titles \<and> rest \<noteq> []
      then combine_names rest (combined @ [word @ '' '' @ hd rest])
      else if word \<notin> set common_words then combine_names rest (combined @ [word])
      else combine_names rest combined)"

text \<open>\<open>sorted(xs, key=len, reverse=True)\<close>, which is stable.\<close>

definition sorted_by_len_desc :: "string list \<Rightarrow> string list" where
  "sorted_by_len_desc xs = sort_key (\<lambda>s. - int (length s)) xs"

definition extract_story_elements :: "game \<Rightarrow> string \<Rightarrow> elements" where
  "extract_story_elements self story =
     (let sentences = map strip (filter (\<lambda>s. s \<noteq> [] \<and> strip s \<noteq> [])
                        (split_sentences [] False story));
          potential_names = find_names False story;
          ner_names = (case nlp self of
                         None \<Rightarrow> []
                       | Some b \<Rightarrow> if story = [] then []
                                   else (case person_entities b story of None \<Rightarrow> [] | Some ns \<Rightarrow> ns));
          combined_names = set_list (set_order self) (combine_names potential_names ner_names);
          sorted_names = sorted_by_len_desc combined_names;
          action_words = (case nlp self of
                            None \<Rightarrow> []
                          | Some b \<Rightarrow> if story = [] then []
                                      else (case verb_lemmas b story of None \<Rightarrow> [] | Some vs \<Rightarrow> vs));
          story_lower = lower story;
          found_objects = filter (\<lambda>obj. contains story_lower obj) OBJECT_WORDS;
          found_places = filter (\<lambda>place. contains story_lower place) PLACE_WORDS
      in \<lparr>el_names = Some (take 5 (set_list (set_order self) sorted_names)),
          el_actions = Some (take 5 (set_list (set_order self) action_words)),
          el_objects = Some (take 5 (set_list (set_order self) found_objects)),
          el_places = Some (take 5 (set_list (set_order self) found_places)),
          el_sentences = Some (take 6 sentences),
          el_first_sentence = Some (case sentences of [] \<Rightarrow> [] | s # _ \<Rightarrow> s),
          el_story_words = Some (split story)\<rparr>)"

section \<open>Helpers of the question synthesizer\<close>

text \<open>\<open>elements.get(key, [])\<close> and \<open>elements.get(key, [None])[0]\<close>; the second raises on a
  key that is present with an empty list.\<close>

definition get_list :: "string list option \<Rightarrow> string list" where
  "get_list field = (case field of None \<Rightarrow> [] | Some xs \<Rightarrow> xs)"

definition first_item :: "string list option \<Rightarrow> error + string option" where
  "first_item field =
     (case field of
        None \<Rightarrow> Inr None
      | Some [] \<Rightarrow> Inl IndexError
      | Some (x # _) \<Rightarrow> Inr (Some x))"

text \<open>\<open>xs[i]\<close> on a list.\<close>

definition item :: "'a list \<Rightarrow> nat \<Rightarrow> error + 'a" where
  "item xs i = (if i < length xs then Inr (xs ! i) else Inl IndexError)"

text \<open>\<open>s.title()\<close>: a letter after a letter is lowered, every other letter is raised.\<close>

fun title_from :: "bool \<Rightarrow> string \<Rightarrow> string" where
  "title_from prev_cased [] = []"
| "title_from prev_cased (c # cs) =
     (if is_alpha c
      then (if prev_cased then lower_char c else upper_char c) # title_from True cs
      else c # title_from False cs)"

definition title :: "string \<Rightarrow> string" where
  "title s = title_from False s"

text \<open>\<open>{chr(65 + i): xs[i] for i in range(4)}\<close>.\<close>

definition letter_options :: "string list \<Rightarrow> error + dict" where
  "letter_options xs =
     (if length xs < 4 then Inl IndexError
      else Inr [(''A'', xs ! 0), (''B'', xs ! 1), (''C'', xs ! 2), (''D'', xs ! 3)])"

text \<open>The first key whose value passes a test, as the loops over \<open>options.items()\<close> find it.\<close>

fun find_key :: "(string \<Rightarrow> bool) \<Rightarrow> dict \<Rightarrow> string option" where
  "find_key P [] = None"
| "find_key P ((k, v) # kvs) = (if P v then Some k else find_key P kvs)"

text \<open>\<open>xs.index(x)\<close> and \<open>chr(65 + idx)\<close> for an index below 26.\<close>

fun index_of :: "'a \<Rightarrow> 'a list \<Rightarrow> nat option" where
  "index_of x [] = None"
| "index_of x (y # ys) = (if y = x then Some 0 else map_option Suc (index_of x ys))"

definition letter_key :: "nat \<Rightarrow> string" where
  "letter_key idx = [''ABCDEFGHIJKLMNOPQRSTUVWXYZ'' ! idx]"

text \<open>\<open>str(n)\<close> for a natural number.\<close>

definition digit_char :: "nat \<Rightarrow> char" where
  "digit_char d = ''0123456789'' ! d"

function str_nat :: "nat \<Rightarrow> string" where
  "str_nat n = (if n < 10 then [digit_char n] else str_nat (n div 10) @ [digit_char (n mod 10)])"
  by pat_completeness auto
termination
  by (relation "measure (\<lambda>n. n)") auto

declare str_nat.simps [simp del]

text \<open>
  \<open>_action_by_main_character\<close>: \<open>None\<close> without backend or without a character, otherwise
  what the analysis of the backend yields.
\<close>

definition action_by_main_character :: "game \<Rightarrow> string \<Rightarrow> string \<Rightarrow> string option" where
  "action_by_main_character self story main_character =
     (case nlp self of
        None \<Rightarrow> None
      | Some b \<Rightarrow> if main_character = [] then None else subject_action b story main_character)"

text \<open>
  The helper \<open>make_mcq\<close>: three decoys, a shuffle, the four lettered options and the key
  of the correct one, found by comparing normalised texts and, failing that, by position.
\<close>

definition make_mcq ::
  "game \<Rightarrow> string \<Rightarrow> string list \<Rightarrow> string list \<Rightarrow> bool \<Rightarrow> rng \<Rightarrow> error + ((dict \<times> string) \<times> rng)" where
  "make_mcq self correct_text decoy_pool fallback_pool title_case g =
     (case safe_sample (filter (\<lambda>d. d \<noteq> [] \<and> lower d \<noteq> lower correct_text) decoy_pool) 3
             fallback_pool g of
        Inl e \<Rightarrow> Inl e
      | Inr (decoys, g1) \<Rightarrow>
          (case random_shuffle (correct_text # decoys) g1 of
             (opts, g2) \<Rightarrow>
               (case letter_options (if title_case then map title opts else opts) of
                  Inl e \<Rightarrow> Inl e
                | Inr opt_dict \<Rightarrow>
                    (let norm_correct = normalize_text (nlp self) correct_text
                     in case find_key (\<lambda>v. normalize_text (nlp self) v = norm_correct \<or>
                                           contains (normalize_text (nlp self) v) norm_correct \<or>
                                           contains norm_correct (normalize_text (nlp self) v))
                               opt_dict of
                          Some k \<Rightarrow> Inr ((opt_dict, k), g2)
                        | None \<Rightarrow>
                            (case index_of correct_text opts of
                               None \<Rightarrow> Inl ValueError
                             | Some idx \<Rightarrow> Inr ((opt_dict, letter_key idx), g2))))))"

section \<open>The bank of question generators\<close>

text \<open>
  A generator reads the story and the elements, and reads and updates the used-elements
  set and the random source. It returns a record, or \<open>None\<close> for "no question", or it
  raises. Every place where a generator can raise comes before its first update of the
  set and its first random draw, so an error carries no state.
\<close>

type_synonym gen_result = "error + (quiz_question option \<times> string set \<times> rng)"

definition decoy_names :: "string list" where
  "decoy_names = [
    ''Aarav'', ''Aditi'', ''Advik'', ''Aisha'', ''Alex'', ''Anika'', ''Arjun'', ''Aryan'',
    ''Ava'', ''Benjamin'', ''Caleb'', ''Casey'', ''Charlotte'', ''Chloe'', ''Cyrus'',
    ''Daniel'', ''David'', ''Diya'', ''Elena'', ''Elijah'', ''Emily'', ''Emma'', ''Ethan'',
    ''Finn'', ''Freya'', ''Gabriel'', ''Grace'', ''Harper'', ''Henry'', ''Ishan'',
    ''Isabella'', ''Jack'', ''James'', ''Jasper'', ''Jordan'', ''Julian'', ''Kai'',
    ''Kavya'', ''Krish'', ''Leo'', ''Liam'', ''Lily'', ''Logan'', ''Lucas'', ''Luna'',
    ''Madison'', ''Mason'', ''Mateo'', ''Maya'', ''Meera'', ''Mia'', ''Michael'',
    ''Morgan'', ''Nitya'', ''Noah'', ''Nora'', ''Oliver'', ''Olivia'', ''Om'', ''Owen'',
    ''Penelope'', ''Priya'', ''Rahul'', ''Riley'', ''River'', ''Riya'', ''Rohan'',
    ''Sage'', ''Sam'', ''Samuel'', ''Shaan'', ''Siya'', ''Sofia'', ''Sophia'', ''Taylor'',
    ''Vihaan'', ''Vivaan'', ''William'', ''Wyatt'', ''Zara'', ''Zoe'']"

definition decoy_actions :: "string list" where
  "decoy_actions = [
    ''argued'', ''built'', ''calculated'', ''climbed'', ''cooked'', ''cried'', ''danced'',
    ''decoded'', ''drew'', ''dreamed'', ''escaped'', ''flew'', ''laughed'', ''listened'',
    ''meditated'', ''negotiated'', ''painted'', ''played'', ''programmed'', ''ran'',
    ''read'', ''repaired'', ''sang'', ''shouted'', ''slept'', ''studied'', ''surrendered'',
    ''swam'', ''teleported'', ''trained'', ''traveled'', ''waited'', ''walked'',
    ''whispered'', ''worked'', ''wrote'', ''stepped'', ''entered'', ''invited'']"

definition decoy_objs :: "string list" where
  "decoy_objs = [
    ''amulet'', ''compass'', ''crystal'', ''key'', ''lantern'', ''map'', ''mirror'', ''orb'',
    ''potion'', ''ring'', ''scroll'', ''staff'', ''sword'', ''talisman'', ''treasure chest'',
    ''vial'', ''wand'', ''journal'', ''relic'']"

definition decoy_places :: "string list" where
  "decoy_places = [
    ''desert'', ''ocean'', ''jungle'', ''space station'', ''volcano'', ''swamp'', ''canyon'',
    ''meadow'', ''tundra'', ''castle'', ''temple'', ''city'', ''laboratory'', ''mansion'',
    ''market'', ''mine'', ''observatory'', ''palace'', ''ruins'', ''tower'', ''harbor'',
    ''factory'']"

text \<open>
  The common shape of \<open>q_name\<close>, \<open>q_object\<close> and \<open>q_place\<close> after the element is chosen,
  and of \<open>q_action\<close> after the action is chosen: the test against the used-elements set,
  the update of the set, the options and the random question text.
\<close>

definition ask_element ::
  "game \<Rightarrow> string \<Rightarrow> string list \<Rightarrow> string list \<Rightarrow> string set \<Rightarrow> rng \<Rightarrow> gen_result" where
  "ask_element self main decoys texts used g =
     (if lower main \<in> used then Inr (None, used, g)
      else case make_mcq self main decoys decoys True g of
             Inl e \<Rightarrow> Inl e
           | Inr ((opts, key), g1) \<Rightarrow>
               (case random_choice texts g1 of
                  (text, g2) \<Rightarrow>
                    Inr (Some \<lparr>question = text, options = opts, correct = Some key\<rparr>,
                         insert (lower main) used, g2)))"

definition q_name :: "game \<Rightarrow> elements \<Rightarrow> string set \<Rightarrow> rng \<Rightarrow> gen_result" where
  "q_name self els used g =
     (case get_list (el_names els) of
        [] \<Rightarrow> Inr (None, used, g)
      | main # _ \<Rightarrow>
          ask_element self main decoy_names
            [''Who is the main character in the story?'',
             ''Which character is central to the tale?'',
             ''Who does the story follow?'',
             ''Which of the following characters appears in the story?''] used g)"

definition q_action :: "game \<Rightarrow> string \<Rightarrow> elements \<Rightarrow> string set \<Rightarrow> rng \<Rightarrow> gen_result" where
  "q_action self story els used g =
     (case get_list (el_actions els) of
        [] \<Rightarrow> Inr (None, used, g)
      | first_action # _ \<Rightarrow>
          (case first_item (el_names els) of
             Inl e \<Rightarrow> Inl e
           | Inr main_char \<Rightarrow>
               (let found = (case main_char of
                               None \<Rightarrow> None
                             | Some mc \<Rightarrow> if mc = [] then None
                                          else action_by_main_character self story mc);
                    main_action = (case found of
                                     None \<Rightarrow> first_action
                                   | Some a \<Rightarrow> if a = [] then first_action else a)
                in if main_action = [] then Inr (None, used, g)
                   else ask_element self main_action decoy_actions
                          [''What is a key action that takes place in the story?'',
                           ''Which of these actions is described in the narrative?'',
                           ''What did someone in the story do?''] used g)))"

definition q_object :: "game \<Rightarrow> elements \<Rightarrow> string set \<Rightarrow> rng \<Rightarrow> gen_result" where
  "q_object self els used g =
     (case get_list (el_objects els) of
        [] \<Rightarrow> Inr (None, used, g)
      | main_obj # _ \<Rightarrow>
          ask_element self main_obj decoy_objs
            [''Which important object is mentioned in the story?'',
             ''What item plays a role in the narrative?'',
             ''Which of these objects appears in the tale?''] used g)"

definition q_place :: "game \<Rightarrow> elements \<Rightarrow> string set \<Rightarrow> rng \<Rightarrow> gen_result" where
  "q_place self els used g =
     (case get_list (el_places els) of
        [] \<Rightarrow> Inr (None, used, g)
      | main_place # _ \<Rightarrow>
          ask_element self main_place decoy_places
            [''Where does the story take place?'',
             ''What is the primary setting of the story?'',
             ''Which location is described in the narrative?'',
             ''The story is set in which of these locations?'',
             ''What is the backdrop for this tale?''] used g)"

text \<open>The helper \<open>short\<close> of \<open>q_sequence\<close>: the first ten words, with "..." after a cut.\<close>

definition short :: "string \<Rightarrow> string" where
  "short p = (let w = split p in join '' '' (take 10 w) @ (if length w > 10 then ''...'' else []))"

definition sequence_decoys :: "string list" where
  "sequence_decoys = [
    ''They found a glowing key'', ''A ship sailed away'', ''A mysterious letter arrived'',
    ''The village celebrated'', ''A bell began to ring'', ''The sun hid behind clouds'',
    ''A storm began to brew'', ''The hero made a plan'', ''A map was discovered'',
    ''The door creaked open'', ''A secret was revealed'', ''They started their journey'',
    ''A strange sound was heard'', ''The group took a rest'', ''A decision was made'',
    ''An old enemy appeared'']"

definition q_sequence :: "elements \<Rightarrow> string set \<Rightarrow> rng \<Rightarrow> gen_result" where
  "q_sequence els used g =
     (case get_list (el_sentences els) of
        s1 # s2 # _ \<Rightarrow>
          (let opt1 = short (strip s1); opt2 = short (strip s2)
           in case safe_sample sequence_decoys 2 sequence_decoys g of
                Inl e \<Rightarrow> Inl e
              | Inr (decoys, g1) \<Rightarrow>
                  (case item decoys 0 of
                     Inl e \<Rightarrow> Inl e
                   | Inr d0 \<Rightarrow>
                       (case item decoys 1 of
                          Inl e \<Rightarrow> Inl e
                        | Inr d1 \<Rightarrow>
                            (case random_shuffle [opt1, opt2, d0, d1] g1 of
                               (shuffled, g2) \<Rightarrow>
                                 (case letter_options shuffled of
                                    Inl e \<Rightarrow> Inl e
                                  | Inr options_dict \<Rightarrow>
                                      (case random_choice
                                              [''Which of the following happened first in the story?'',
                                               ''What event comes earliest in the narrative?'',
                                               ''How does the story begin?'',
                                               ''Which event marks the start of the story?''] g2 of
                                         (text, g3) \<Rightarrow>
                                           Inr (Some \<lparr>question = text, options = options_dict,
                                                      correct = find_key (\<lambda>v. v = opt1) options_dict\<rparr>,
                                                used, g3)))))))
      | _ \<Rightarrow> Inr (None, used, g))"

text \<open>
  \<open>q_true_false\<close>. Both \<open>elements.get('objects', [None])[0]\<close> and
  \<open>elements.get('actions', [None])[0]\<close> are evaluated before the branches.
\<close>

definition true_false_options :: dict where
  "true_false_options = [(''A'', ''True''), (''B'', ''False''), (''C'', ''Maybe''), (''D'', ''Not stated'')]"

definition q_true_false :: "elements \<Rightarrow> string set \<Rightarrow> rng \<Rightarrow> gen_result" where
  "q_true_false els used g =
     (case get_list (el_names els) of
        [] \<Rightarrow> Inr (None, used, g)
      | subj # _ \<Rightarrow>
          (case first_item (el_objects els) of
             Inl e \<Rightarrow> Inl e
           | Inr obj \<Rightarrow>
               (case first_item (el_actions els) of
                  Inl e \<Rightarrow> Inl e
                | Inr action \<Rightarrow>
                    (let story_text = lower (join '' '' (get_list (el_story_words els)));
                         obj_text = (case obj of None \<Rightarrow> [] | Some x \<Rightarrow> x);
                         action_text = (case action of None \<Rightarrow> [] | Some x \<Rightarrow> x)
                     in if obj_text \<noteq> [] then
                          Inr (Some \<lparr>question = ''True or False: '' @ subj @ '' discovered a '' @ obj_text @ ''.'',
                                     options = true_false_options,
                                     correct = Some (if contains story_text (lower obj_text)
                                                     then ''A'' else ''B'')\<rparr>, used, g)
                        else if action_text \<noteq> [] then
                          Inr (Some \<lparr>question = ''True or False: '' @ subj @ '' '' @ action_text @ '' in the story.'',
                                     options = true_false_options,
                                     correct = Some (if contains story_text (lower action_text)
                                                     then ''A'' else ''B'')\<rparr>, used, g)
                        else Inr (None, used, g)))))"

definition not_mentioned_candidates :: "string list" where
  "not_mentioned_candidates = [
    ''spaceship'', ''glacier'', ''police station'', ''motorcycle'', ''astronaut'', ''market'',
    ''jewel'', ''statue'', ''bridge'', ''robot'', ''scepter'', ''chronometer'']"

definition q_not_mentioned :: "elements \<Rightarrow> string set \<Rightarrow> rng \<Rightarrow> gen_result" where
  "q_not_mentioned els used g =
     (let story_text = lower (join '' '' (get_list (el_story_words els)));
          mentioned_candidates =
            get_list (el_objects els) @ get_list (el_places els) @ get_list (el_names els);
          mentioned = filter (\<lambda>m. m \<noteq> [] \<and> contains story_text (lower m)) mentioned_candidates;
          not_mentioned_pool =
            filter (\<lambda>d. \<not> contains story_text (lower d)) not_mentioned_candidates
      in if not_mentioned_pool = [] then Inr (None, used, g)
         else case safe_sample not_mentioned_pool 1 not_mentioned_candidates g of
                Inl e \<Rightarrow> Inl e
              | Inr (picked, g1) \<Rightarrow>
                  (case item picked 0 of
                     Inl e \<Rightarrow> Inl e
                   | Inr correct_item \<Rightarrow>
                       (let other_pool =
                              filter (\<lambda>p. lower p \<noteq> lower correct_item)
                                (filter (\<lambda>m. m \<noteq> []) mentioned @ not_mentioned_pool)
                        in case safe_sample other_pool 3 not_mentioned_candidates g1 of
                             Inl e \<Rightarrow> Inl e
                           | Inr (others, g2) \<Rightarrow>
                               (case random_shuffle (correct_item # others) g2 of
                                  (opts, g3) \<Rightarrow>
                                    (case letter_options (map title opts) of
                                       Inl e \<Rightarrow> Inl e
                                     | Inr opts_dict \<Rightarrow>
                                         (case random_choice
                                                 [''Which of the following is NOT mentioned in the story?'',
                                                  ''Which item/place/character did the story NOT mention?''] g3 of
                                            (text, g4) \<Rightarrow>
                                              Inr (Some \<lparr>question = text, options = opts_dict,
                                                         correct = Some
                                                           (case find_key (\<lambda>v. lower v = lower correct_item) opts_dict of
                                                              Some k \<Rightarrow> k | None \<Rightarrow> ''A'')\<rparr>,
                                                   used, g4)))))))"

definition decoy_reasons :: "string list" where
  "decoy_reasons = [
    ''To find treasure'', ''To escape danger'', ''To meet a friend'',
    ''To learn a secret'', ''To show off'', ''By accident'', ''Because they were told to'']"

text \<open>The sentence that \<open>q_inference\<close> takes as the reason.\<close>

definition find_reason :: "string list \<Rightarrow> string option" where
  "find_reason sents =
     (case filter (\<lambda>s. contains (lower s) ''because'' \<or> contains (lower s) ''so that'' \<or>
                        contains (lower s) ''to'') sents of
        s # _ \<Rightarrow> Some s
      | [] \<Rightarrow> (case sents of [] \<Rightarrow> None | s # _ \<Rightarrow> Some s))"

definition q_inference :: "elements \<Rightarrow> string set \<Rightarrow> rng \<Rightarrow> gen_result" where
  "q_inference els used g =
     (case get_list (el_names els) of
        [] \<Rightarrow> Inr (None, used, g)
      | subj # _ \<Rightarrow>
          (case find_reason (get_list (el_sentences els)) of
             None \<Rightarrow> Inr (None, used, g)
           | Some reason \<Rightarrow>
               if reason = [] then Inr (None, used, g)
               else case first_item (el_actions els) of
                 Inl e \<Rightarrow> Inl e
               | Inr verb_like \<Rightarrow>
                   if verb_like = None \<or> verb_like = Some [] then Inr (None, used, g)
                   else
                     (let correct_reason =
                            (if list_ex (\<lambda>w. contains (lower reason) w)
                                  [''explor'', ''discover'', ''find'', ''enter'', ''step'']
                             then ''To explore'' else ''Because they had to'')
                      in case safe_sample decoy_reasons 3 decoy_reasons g of
                           Inl e \<Rightarrow> Inl e
                         | Inr (decoys, g1) \<Rightarrow>
                             (case random_shuffle (correct_reason # decoys) g1 of
                                (choices, g2) \<Rightarrow>
                                  (case letter_options choices of
                                     Inl e \<Rightarrow> Inl e
                                   | Inr opts \<Rightarrow>
                                       (case random_choice
                                               [''Why did '' @ subj @ '' do what they did in the story?'',
                                                ''What is the most likely reason '' @ subj @ '' acted as they did?''] g2 of
                                          (text, g3) \<Rightarrow>
                                            Inr (Some \<lparr>question = text, options = opts,
                                                       correct = Some
                                                         (case find_key (\<lambda>v. v = correct_reason) opts of
                                                            Some k \<Rightarrow> k | None \<Rightarrow> ''A'')\<rparr>,
                                                 used, g3)))))))"

section \<open>The contextual fallback: \<open>create_contextual_question\<close>\<close>

text \<open>The function reads neither \<open>self\<close> nor its parameter \<open>story\<close>, only the elements.\<close>

definition opening_decoys :: "string list" where
  "opening_decoys = [
    ''On a stormy night'', ''Deep within the forest'', ''It was the silence'',
    ''In a faraway land'', ''Long ago, in a kingdom'', ''No one expected this'']"

definition possible_not :: "string list" where
  "possible_not = [''spaceship'', ''museum'', ''robot'', ''castle'', ''river'', ''key'', ''lantern'',
                   ''dragon'', ''market'']"

text \<open>
  The first branch. It returns \<open>None\<close> as its question when the function goes on to the
  next branch; the random draws it has made by then are spent.
\<close>

definition opening_phrase_question :: "elements \<Rightarrow> string set \<Rightarrow> rng \<Rightarrow> gen_result" where
  "opening_phrase_question els used g =
     (let first_sentence = (case el_first_sentence els of None \<Rightarrow> [] | Some s \<Rightarrow> s);
          words = split first_sentence
      in if first_sentence \<noteq> [] \<and> length words > 2 then
           (let first_phrase = join '' '' (take 4 words)
            in case safe_sample opening_decoys 3 opening_decoys g of
                 Inl e \<Rightarrow> Inl e
               | Inr (decoys, g1) \<Rightarrow>
                   (case random_shuffle (first_phrase # decoys) g1 of
                      (choices, g2) \<Rightarrow>
                        (case letter_options choices of
                           Inl e \<Rightarrow> Inl e
                         | Inr opts \<Rightarrow>
                             if lower first_phrase \<notin> used then
                               Inr (Some \<lparr>question = ''Which phrase opens the story?'', options = opts,
                                          correct = Some (case find_key (\<lambda>v. v = first_phrase) opts of
                                                            Some k \<Rightarrow> k | None \<Rightarrow> ''A'')\<rparr>,
                                    insert (lower first_phrase) used, g2)
                             else Inr (None, used, g2))))
         else Inr (None, used, g))"

text \<open>The second branch, for a story of more than 40 words.\<close>

definition length_question :: "nat \<Rightarrow> rng \<Rightarrow> error + (quiz_question \<times> rng)" where
  "length_question word_count g =
     (case random_shuffle
             [''About '' @ str_nat word_count @ '' words'',
              ''About '' @ str_nat (max 10 (word_count - 40)) @ '' words'',
              ''About '' @ str_nat (word_count + 30) @ '' words'',
              ''About '' @ str_nat (max 10 (word_count + 60)) @ '' words''] g of
        (ranges, g1) \<Rightarrow>
          (case letter_options ranges of
             Inl e \<Rightarrow> Inl e
           | Inr opts \<Rightarrow>
               Inr (\<lparr>question = ''Approximately how long is this story?'', options = opts,
                     correct = Some (case find_key (\<lambda>v. contains v (str_nat word_count)) opts of
                                       Some k \<Rightarrow> k | None \<Rightarrow> ''A'')\<rparr>, g1)))"

text \<open>The third branch, taken when some word of the small pool is not in the story.\<close>

definition not_mentioned_question :: "string list \<Rightarrow> rng \<Rightarrow> error + (quiz_question \<times> rng)" where
  "not_mentioned_question not_mentioned g =
     (case safe_sample not_mentioned 1 possible_not g of
        Inl e \<Rightarrow> Inl e
      | Inr (picked, g1) \<Rightarrow>
          (case item picked 0 of
             Inl e \<Rightarrow> Inl e
           | Inr correct_choice \<Rightarrow>
               (case safe_sample (filter (\<lambda>w. lower w \<noteq> lower correct_choice) possible_not) 3
                       possible_not g1 of
                  Inl e \<Rightarrow> Inl e
                | Inr (other_choices, g2) \<Rightarrow>
                    (case random_shuffle (correct_choice # other_choices) g2 of
                       (shuffled, g3) \<Rightarrow>
                         (case letter_options (map title shuffled) of
                            Inl e \<Rightarrow> Inl e
                          | Inr opts \<Rightarrow>
                              Inr (\<lparr>question = ''Which of these is NOT mentioned in the story?'',
                                    options = opts,
                                    correct = Some (case find_key (\<lambda>v. lower v = lower correct_choice) opts of
                                                      Some k \<Rightarrow> k | None \<Rightarrow> ''A'')\<rparr>, g3))))))"

text \<open>The fourth branch.\<close>

definition generic_question :: quiz_question where
  "generic_question =
     \<lparr>question = ''True or False: The story included a surprising event.'',
      options = [(''A'', ''True''), (''B'', ''False''), (''C'', ''Not stated''), (''D'', ''Maybe'')],
      correct = Some ''A''\<rparr>"

definition create_contextual_question :: "elements \<Rightarrow> string set \<Rightarrow> rng \<Rightarrow> gen_result" where
  "create_contextual_question els used g =
     (case opening_phrase_question els used g of
        Inl e \<Rightarrow> Inl e
      | Inr (Some q, used1, g1) \<Rightarrow> Inr (Some q, used1, g1)
      | Inr (None, used1, g1) \<Rightarrow>
          (let story_words = get_list (el_story_words els);
               story_text_lower = lower (join '' '' story_words);
               word_count = length story_words
           in if word_count > 40 then
                (case length_question word_count g1 of
                   Inl e \<Rightarrow> Inl e
                 | Inr (q, g2) \<Rightarrow> Inr (Some q, used1, g2))
              else
                (let not_mentioned = filter (\<lambda>w. \<not> contains story_text_lower w) possible_not
                 in if length not_mentioned \<ge> 1 then
                      (case not_mentioned_question not_mentioned g1 of
                         Inl e \<Rightarrow> Inl e
                       | Inr (q, g2) \<Rightarrow> Inr (Some q, used1, g2))
                    else Inr (Some generic_question, used1, g1))))"

section \<open>Orchestration: \<open>generate_unique_questions\<close>\<close>

text \<open>The bank \<open>candidate_generators\<close>, in the order in which the generators are appended.\<close>

datatype strategy =
  QName | QAction | QObject | QPlace | QSequence | QTrueFalse | QNotMentioned | QInference

definition candidate_generators :: "strategy list" where
  "candidate_generators =
     [QName, QAction, QObject, QPlace, QSequence, QTrueFalse, QNotMentioned, QInference]"

fun run_generator ::
  "game \<Rightarrow> string \<Rightarrow> elements \<Rightarrow> strategy \<Rightarrow> string set \<Rightarrow> rng \<Rightarrow> gen_result" where
  "run_generator self story els QName used g = q_name self els used g"
| "run_generator self story els QAction used g = q_action self story els used g"
| "run_generator self story els QObject used g = q_object self els used g"
| "run_generator self story els QPlace used g = q_place self els used g"
| "run_generator self story els QSequence used g = q_sequence els used g"
| "run_generator self story els QTrueFalse used g = q_true_false els used g"
| "run_generator self story els QNotMentioned used g = q_not_mentioned els used g"
| "run_generator self story els QInference used g = q_inference els used g"

text \<open>
  The loop over the shuffled bank: it stops at \<open>num_needed\<close> questions, appends what a
  generator returns and goes on after an exception.
\<close>

fun run_bank ::
  "game \<Rightarrow> string \<Rightarrow> elements \<Rightarrow> nat \<Rightarrow> strategy list \<Rightarrow> quiz_question list \<Rightarrow> string set \<Rightarrow> rng \<Rightarrow>
   quiz_question list \<times> string set \<times> rng" where
  "run_bank self story els num_needed [] questions used g = (questions, used, g)"
| "run_bank self story els num_needed (gen # gens) questions used g =
     (if length questions \<ge> num_needed then (questions, used, g)
      else case run_generator self story els gen used g of
             Inl e \<Rightarrow> run_bank self story els num_needed gens questions used g
           | Inr (None, used1, g1) \<Rightarrow> run_bank self story els num_needed gens questions used1 g1
           | Inr (Some q, used1, g1) \<Rightarrow>
               run_bank self story els num_needed gens (questions @ [q]) used1 g1)"

text \<open>
  The loop \<open>while len(questions) < num_needed\<close> that fills up with contextual questions
  and breaks when none is returned. An exception of \<open>create_contextual_question\<close> is not
  caught here.
\<close>

function fill_contextual ::
  "elements \<Rightarrow> nat \<Rightarrow> quiz_question list \<Rightarrow> string set \<Rightarrow> rng \<Rightarrow>
   error + (quiz_question list \<times> string set \<times> rng)" where
  "fill_contextual els num_needed questions used g =
     (if length questions < num_needed then
        (case create_contextual_question els used g of
           Inl e \<Rightarrow> Inl e
         | Inr (None, used1, g1) \<Rightarrow> Inr (questions, used1, g1)
         | Inr (Some ctx, used1, g1) \<Rightarrow>
             fill_contextual els num_needed (questions @ [ctx]) used1 g1)
      else Inr (questions, used, g))"
  by pat_completeness auto
termination
  by (relation "measure (\<lambda>(els, num_needed, questions, used, g). num_needed - length questions)")
    auto

declare fill_contextual.simps [simp del]

text \<open>
  The final pass over one record: options that are not four are cut or padded with
  "Not stated" and lettered anew, and a key that is then missing becomes "A".
\<close>

definition clean_question :: "quiz_question \<Rightarrow> error + quiz_question" where
  "clean_question q =
     (if length (options q) \<noteq> 4 then
        (case letter_options (pad_with ''Not stated'' 4 (take 4 (dict_values (options q)))) of
           Inl e \<Rightarrow> Inl e
         | Inr opts \<Rightarrow>
             Inr (q\<lparr>options := opts,
                    correct := (case correct q of
                                  None \<Rightarrow> Some ''A''
                                | Some k \<Rightarrow> if k \<in> set (dict_keys opts) then Some k else Some ''A'')\<rparr>))
      else Inr q)"

fun clean_questions :: "quiz_question list \<Rightarrow> quiz_question list \<Rightarrow> error + quiz_question list" where
  "clean_questions [] cleaned = Inr cleaned"
| "clean_questions (q # qs) cleaned =
     (case clean_question q of
        Inl e \<Rightarrow> Inl e
      | Inr q' \<Rightarrow> clean_questions qs (cleaned @ [q']))"

definition generate_unique_questions ::
  "game \<Rightarrow> string \<Rightarrow> elements \<Rightarrow> rng \<Rightarrow> error + (quiz_question list \<times> rng)" where
  "generate_unique_questions self story els g =
     (let num_needed = num_questions_per_round self
      in case random_shuffle candidate_generators g of
           (bank, g1) \<Rightarrow>
             (case run_bank self story els num_needed bank [] {} g1 of
                (questions, used, g2) \<Rightarrow>
                  (case fill_contextual els num_needed questions used g2 of
                     Inl e \<Rightarrow> Inl e
                   | Inr (filled, used1, g3) \<Rightarrow>
                       (case clean_questions (take num_needed filled) [] of
                          Inl e \<Rightarrow> Inl e
                        | Inr cleaned \<Rightarrow> Inr (take num_needed cleaned, g3)))))"

section \<open>The fallback quiz and the quiz generation\<close>

text \<open>
  The loop \<open>for _ in range(remaining_needed)\<close> of \<open>get_fallback_quiz\<close>; every call gets a
  fresh empty used-elements set.
\<close>

fun contextual_loop ::
  "nat \<Rightarrow> elements \<Rightarrow> quiz_question list \<Rightarrow> rng \<Rightarrow> error + (quiz_question list \<times> rng)" where
  "contextual_loop 0 els unique_questions g = Inr (unique_questions, g)"
| "contextual_loop (Suc remaining) els unique_questions g =
     (case create_contextual_question els {} g of
        Inl e \<Rightarrow> Inl e
      | Inr (None, used1, g1) \<Rightarrow> contextual_loop remaining els unique_questions g1
      | Inr (Some contextual_q, used1, g1) \<Rightarrow>
          contextual_loop remaining els (unique_questions @ [contextual_q]) g1)"

definition get_fallback_quiz ::
  "game \<Rightarrow> string \<Rightarrow> rng \<Rightarrow> error + (quiz_question list \<times> rng)" where
  "get_fallback_quiz self story g =
     (let num_questions = num_questions_per_round self;
          els = extract_story_elements self story
      in case generate_unique_questions self story els g of
           Inl e \<Rightarrow> Inl e
         | Inr (unique_questions, g1) \<Rightarrow>
             if length unique_questions \<ge> num_questions
             then Inr (take num_questions unique_questions, g1)
             else (case contextual_loop (num_questions - length unique_questions) els
                          unique_questions g1 of
                     Inl e \<Rightarrow> Inl e
                   | Inr (qs, g2) \<Rightarrow> Inr (take num_questions qs, g2)))"

text \<open>The prompt that \<open>generate_quiz_questions\<close> sends.\<close>

definition focus_points :: "elements \<Rightarrow> string list" where
  "focus_points els =
     (case get_list (el_names els) of [] \<Rightarrow> [] | n # _ \<Rightarrow> [''the main character, '' @ n]) @
     (case get_list (el_objects els) of [] \<Rightarrow> [] | obj # _ \<Rightarrow> [''the role of the '' @ obj]) @
     (case get_list (el_actions els) of
        [] \<Rightarrow> []
      | a # _ \<Rightarrow> [''a key action, such as '' @ [CHR 0x27] @ a @ [CHR 0x27]])"

definition quiz_prompt :: "nat \<Rightarrow> elements \<Rightarrow> string \<Rightarrow> string" where
  "quiz_prompt num_questions els story =
     ''Based only on the details within the following story, create exactly '' @
     str_nat num_questions @
     '' unique and insightful multiple-choice questions to test reading comprehension. '' @
     (if focus_points els \<noteq> []
      then ''Focus the questions on key details like '' @ join '', '' (focus_points els) @ ''.''
      else []) @
     [CHR 0x0A, CHR 0x0A] @ ''Story: '' @ story @ [CHR 0x0A, CHR 0x0A] @
     ''Format:'' @ [CHR 0x0A] @ ''Question: [text]'' @ [CHR 0x0A] @
     ''A) [option]'' @ [CHR 0x0A] @ ''B) [option]'' @ [CHR 0x0A] @
     ''C) [option]'' @ [CHR 0x0A] @ ''D) [option]'' @ [CHR 0x0A] @
     ''Correct Answer: [A-D]'' @ [CHR 0x0A]"

text \<open>
  The text-generation service is a parameter: \<open>ollama prompt max_tokens call\<close> is what
  \<open>generate_with_ollama\<close> returns on the call with that number, the empty string when the
  request fails. The loop below is \<open>for attempt in range(3)\<close>, given the attempts left.
  The pauses between the attempts are left out, and the story is a string (the code
  replaces \<open>None\<close> by the empty string first).
\<close>

fun quiz_attempts ::
  "(string \<Rightarrow> nat \<Rightarrow> nat \<Rightarrow> string) \<Rightarrow> string \<Rightarrow> nat \<Rightarrow> nat list \<Rightarrow> quiz_question list option" where
  "quiz_attempts ollama prompt num_questions [] = None"
| "quiz_attempts ollama prompt num_questions (attempt # attempts) =
     (let parsed_questions = parse_quiz_questions (ollama prompt 400 attempt)
      in if length parsed_questions = num_questions then Some parsed_questions
         else quiz_attempts ollama prompt num_questions attempts)"

definition generate_quiz_questions ::
  "game \<Rightarrow> (string \<Rightarrow> nat \<Rightarrow> nat \<Rightarrow> string) \<Rightarrow> string \<Rightarrow> rng \<Rightarrow>
   error + (quiz_question list \<times> rng)" where
  "generate_quiz_questions self ollama story g =
     (let num_questions = num_questions_per_round self;
          els = extract_story_elements self story
      in case quiz_attempts ollama (quiz_prompt num_questions els story) num_questions [0, 1, 2] of
           Some parsed_questions \<Rightarrow> Inr (parsed_questions, g)
         | None \<Rightarrow> get_fallback_quiz self story g)"

section \<open>Auxiliary notions for the proofs\<close>

text \<open>
  A string in which every blank stands alone and every other character satisfies \<open>P\<close>;
  the flag says that a blank is not allowed next.
\<close>

fun spaced :: "(char \<Rightarrow> bool) \<Rightarrow> bool \<Rightarrow> string \<Rightarrow> bool" where
  "spaced P p [] = True"
| "spaced P p (c # cs) =
     (if c = CHR '' '' then \<not> p \<and> spaced P True cs else P c \<and> spaced P False cs)"

definition lower_word :: "char \<Rightarrow> bool" where
  "lower_word c = (is_word c \<and> lower_char c = c)"

text \<open>
  The three conditions under which a block yields a record, read off its fields.
\<close>

definition block_valid :: "string list \<Rightarrow> bool" where
  "block_valid block =
     (case block_fields block of
        None \<Rightarrow> False
      | Some (question_text, opts, correct_letter) \<Rightarrow>
          question_text \<noteq> [] \<and> length opts = 4 \<and>
          (case correct_letter of None \<Rightarrow> False | Some letter \<Rightarrow> letter \<in> set (dict_keys opts)))"

text \<open>A well-formed quiz text of one question.\<close>

definition scenario_text :: string where
  "scenario_text = ''Question: Who opened the door?'' @ [CHR 0x0A] @ ''A) Alice'' @ [CHR 0x0A] @
     ''B) Bob'' @ [CHR 0x0A] @ ''C) Carl'' @ [CHR 0x0A] @ ''D) Dee'' @ [CHR 0x0A] @
     ''Correct Answer: A''"

text \<open>
  A game without linguistic backend, three questions per round, and a set order that
  iterates shorter strings first.
\<close>

definition plain_game :: game where
  "plain_game = \<lparr>nlp = None, num_questions_per_round = 3, set_order = sort_key length\<rparr>"

text \<open>The elements of the scenario with one name and neither objects nor actions.\<close>

definition maya_elements :: elements where
  "maya_elements =
     \<lparr>el_names = Some [''Maya''], el_actions = Some [], el_objects = Some [],
      el_places = Some [], el_sentences = Some [], el_first_sentence = Some [],
      el_story_words = Some []\<rparr>"

text \<open>A record that the contextual fallback produces for the empty story.\<close>

definition not_mentioned_record :: quiz_question where
  "not_mentioned_record =
     \<lparr>question = ''Which of these is NOT mentioned in the story?'',
      options = [(''A'', ''Museum''), (''B'', ''Robot''), (''C'', ''Castle''), (''D'', ''Spaceship'')],
      correct = Some ''D''\<rparr>"

text \<open>The four strategies that consult the used-elements set, and the opening-phrase record.\<close>

definition element_strategy :: "strategy \<Rightarrow> bool" where
  "element_strategy s = (s = QName \<or> s = QAction \<or> s = QObject \<or> s = QPlace)"

definition opening_record :: "quiz_question option \<Rightarrow> bool" where
  "opening_record r =
     (case r of None \<Rightarrow> False | Some q \<Rightarrow> question q = ''Which phrase opens the story?'')"

text \<open>
  The element that an element strategy asks about: the value of \<open>main\<close>, \<open>main_action\<close>,
  \<open>main_obj\<close> or \<open>main_place\<close> in the generator; and the value of \<open>first_phrase\<close> in the
  contextual fallback.
\<close>

fun asked_element :: "game \<Rightarrow> string \<Rightarrow> elements \<Rightarrow> strategy \<Rightarrow> string" where
  "asked_element self story els QName =
     (case get_list (el_names els) of [] \<Rightarrow> [] | main # _ \<Rightarrow> main)"
| "asked_element self story els QAction =
     (case get_list (el_actions els) of
        [] \<Rightarrow> []
      | first_action # _ \<Rightarrow>
          (case first_item (el_names els) of
             Inl e \<Rightarrow> []
           | Inr main_char \<Rightarrow>
               (case (case main_char of
                        None \<Rightarrow> None
                      | Some mc \<Rightarrow> if mc = [] then None
                                   else action_by_main_character self story mc) of
                  None \<Rightarrow> first_action
                | Some a \<Rightarrow> if a = [] then first_action else a)))"
| "asked_element self story els QObject =
     (case get_list (el_objects els) of [] \<Rightarrow> [] | main_obj # _ \<Rightarrow> main_obj)"
| "asked_element self story els QPlace =
     (case get_list (el_places els) of [] \<Rightarrow> [] | main_place # _ \<Rightarrow> main_place)"
| "asked_element self story els s = []"

definition opening_phrase :: "elements \<Rightarrow> string" where
  "opening_phrase els =
     join '' '' (take 4 (split (case el_first_sentence els of None \<Rightarrow> [] | Some s \<Rightarrow> s)))"

text \<open>
  A story of 101 words for a word limit of 100, the limit of the leveled game at level 1:
  "Look out!" followed by 99 times "run", without any period.
\<close>

definition exclaim_story :: string where
  "exclaim_story = ''Look out! '' @ concat (replicate 99 ''run '')"
section \<open>Properties of \<open>_safe_sample\<close>\<close>

lemma random_sample_length:
  "k \<le> length pool \<Longrightarrow> \<exists>res g'. random_sample pool k g = Inr (res, g') \<and> length res = k"
proof (induction k arbitrary: pool g)
  case 0
  then show ?case by simp
next
  case (Suc k)
  obtain j g' where d: "randbelow (length pool) g = (j, g')"
    by (cases "randbelow (length pool) g")
  from Suc.prems have ne: "pool \<noteq> []" by auto
  have "j < length pool"
  proof (cases g)
    case Nil
    with d ne show ?thesis by auto
  next
    case (Cons r rs)
    with d ne show ?thesis by auto
  qed
  with Suc.prems have "k \<le> length (take j pool @ drop (Suc j) pool)" by auto
  from Suc.IH [OF this, of g'] obtain rest g'' where
    "random_sample (take j pool @ drop (Suc j) pool) k g' = Inr (rest, g'')" "length rest = k"
    by blast
  with d ne show ?case by simp
qed

lemma fill_from_fallback_length:
  "length result \<le> k \<Longrightarrow> length (fill_from_fallback k result items) \<le> k"
  by (induction k result items rule: fill_from_fallback.induct) auto

lemma pad_with_length: "length result \<le> k \<Longrightarrow> length (pad_with filler k result) = k"
proof (induction filler k result rule: pad_with.induct)
  case (1 filler k result)
  show ?case
  proof (cases "length result < k")
    case True
    with 1 show ?thesis by (simp add: pad_with.simps [of filler k result])
  next
    case False
    with 1 show ?thesis by (simp add: pad_with.simps [of filler k result])
  qed
qed

lemma pad_with_replicate: "pad_with filler k [] = replicate k filler"
proof -
  have "length result \<le> k \<Longrightarrow>
        pad_with filler k result = result @ replicate (k - length result) filler" for result
  proof (induction filler k result rule: pad_with.induct)
    case (1 filler k result)
    show ?case
    proof (cases "length result < k")
      case True
      then have "k - length result = Suc (k - Suc (length result))" by simp
      with 1 True show ?thesis
        by (simp add: pad_with.simps [of filler k result] replicate_append_same del: replicate_Suc)
          (simp add: replicate_app_Cons_same)
    next
      case False
      with 1 show ?thesis by (simp add: pad_with.simps [of filler k result])
    qed
  qed
  from this [of "[]"] show ?thesis by simp
qed

lemma safe_sample_returns:
  "\<exists>res g'. safe_sample pool k fallback_pool g = Inr (res, g') \<and> length res = k"
proof -
  define pool2 where "pool2 = dedup_seen {} (filter (\<lambda>p. p \<noteq> [] \<and> strip p \<noteq> []) pool)"
  show ?thesis
  proof (cases "k \<le> length pool2")
    case True
    from random_sample_length [OF this, of g] show ?thesis
      using True by (simp add: safe_sample_def pool2_def)
  next
    case False
    then have "length pool2 \<le> k" by simp
    then have "length (pad_with ''None'' k (fill_from_fallback k pool2 fallback_pool)) = k"
      by (intro pad_with_length fill_from_fallback_length)
    with False show ?thesis by (simp add: safe_sample_def pool2_def)
  qed
qed

text \<open>
  Claim C1. For every pool, every fallback pool, every \<open>k\<close> and every outcome of the random
  draws, \<open>_safe_sample(pool, k, fallback_pool)\<close> returns (it raises nothing) a list of
  exactly \<open>k\<close> items; when both pools are empty the list is \<open>k\<close> copies of the literal
  \<open>"None"\<close>.
\<close>

theorem safe_sample_length:
  "(\<exists>res g'. safe_sample pool k fallback_pool g = Inr (res, g') \<and> length res = k) \<and>
   safe_sample [] k [] g = Inr (replicate k ''None'', g)"
proof
  show "\<exists>res g'. safe_sample pool k fallback_pool g = Inr (res, g') \<and> length res = k"
    by (rule safe_sample_returns)
  show "safe_sample [] k [] g = Inr (replicate k ''None'', g)"
    by (cases k) (simp_all add: safe_sample_def pad_with_replicate)
qed


section \<open>Properties of the parser\<close>

lemma dict_set_keys: "set (dict_keys (dict_set k v d)) = insert k (set (dict_keys d))"
  by (induction k v d rule: dict_set.induct) (auto simp: dict_keys_def)

lemma dict_set_distinct: "distinct (dict_keys d) \<Longrightarrow> distinct (dict_keys (dict_set k v d))"
proof (induction d)
  case Nil
  then show ?case by (simp add: dict_keys_def)
next
  case (Cons kv d)
  obtain k' v' where kv: "kv = (k', v')" by (cases kv)
  from Cons.prems have d: "distinct (dict_keys d)" "k' \<notin> set (dict_keys d)"
    by (auto simp: dict_keys_def kv)
  show ?case
  proof (cases "k' = k")
    case True
    with Cons.prems show ?thesis by (simp add: dict_keys_def kv)
  next
    case False
    have "k' \<notin> set (dict_keys (dict_set k v d))"
      using False d by (simp add: dict_set_keys)
    with False Cons.IH [OF d(1)] show ?thesis by (simp add: dict_keys_def kv)
  qed
qed

lemma collect_options_distinct:
  "distinct (dict_keys opts) \<Longrightarrow> distinct (dict_keys (collect_options ls opts))"
  by (induction ls arbitrary: opts) (auto simp: dict_set_distinct split: option.splits)

lemma block_fields_distinct:
  "block_fields block = Some (question_text, opts, correct_letter) \<Longrightarrow> distinct (dict_keys opts)"
proof -
  have "distinct (dict_keys (collect_options ls []))" for ls
    by (rule collect_options_distinct) (simp add: dict_keys_def)
  then show "block_fields block = Some (question_text, opts, correct_letter) \<Longrightarrow>
      distinct (dict_keys opts)"
    by (auto simp: block_fields_def Let_def split: if_splits option.splits)
qed

lemma parse_block_Some:
  assumes "parse_block block = Some q"
  shows "question q \<noteq> [] \<and> length (options q) = 4 \<and> distinct (dict_keys (options q)) \<and>
         (\<exists>letter. correct q = Some letter \<and> letter \<in> set (dict_keys (options q)))"
proof -
  from assms obtain question_text opts letter where
    f: "block_fields block = Some (question_text, opts, Some letter)" and
    c: "question_text \<noteq> []" "length opts = 4" "letter \<in> set (dict_keys opts)" and
    q: "q = \<lparr>question = question_text, options = opts, correct = Some letter\<rparr>"
    by (auto simp: parse_block_def split: option.splits if_splits)
  from f have "distinct (dict_keys opts)" by (rule block_fields_distinct)
  with c q show ?thesis by simp
qed

lemma find_correct_letter_nonempty: "find_correct_letter lits t = Some letter \<Longrightarrow> letter \<noteq> []"
  by (induction lits) (auto split: option.splits)

lemma parse_block_valid: "parse_block block \<noteq> None \<longleftrightarrow> block_valid block"
proof (cases "block_fields block")
  case None
  then show ?thesis by (simp add: parse_block_def block_valid_def)
next
  case (Some f)
  obtain question_text opts correct_letter where f: "f = (question_text, opts, correct_letter)"
    by (cases f)
  show ?thesis
  proof (cases correct_letter)
    case None
    with Some f show ?thesis by (simp add: parse_block_def block_valid_def)
  next
    case (Some letter)
    with \<open>block_fields block = Some f\<close> f have "letter \<noteq> []"
      by (auto simp: block_fields_def Let_def split: if_splits option.splits
          dest: find_correct_letter_nonempty)
    with Some \<open>block_fields block = Some f\<close> f show ?thesis
      by (simp add: parse_block_def block_valid_def)
  qed
qed

lemma parse_block_valid_ex: "(\<exists>q. parse_block block = Some q) \<longleftrightarrow> block_valid block"
  using parse_block_valid [of block] by auto

lemma parse_blocks_map_filter:
  "parse_blocks blocks questions = questions @ List.map_filter parse_block blocks"
  by (induction blocks arbitrary: questions) (auto simp: List.map_filter_simps split: option.splits)

lemma length_map_filter: "length (List.map_filter f xs) = length (filter (\<lambda>x. f x \<noteq> None) xs)"
  by (induction xs) (auto simp: List.map_filter_simps split: option.splits)

lemma text_blocks_empty: "filter block_valid (text_blocks []) = []"
  by (simp add: text_blocks_def block_valid_def block_fields_def rstrip_def)

text \<open>
  Claim C2. For every input string, every record returned by \<open>parse_quiz_questions\<close> has
  a non-empty question text, an options dictionary of exactly 4 distinct keys and a
  \<open>'correct'\<close> value that is one of these keys; the blocks that do not satisfy the three
  conditions contribute no record, the others one each.
\<close>

theorem parse_quiz_questions_wellformed:
  "(\<forall>q\<in>set (parse_quiz_questions txt).
      question q \<noteq> [] \<and> length (options q) = 4 \<and> distinct (dict_keys (options q)) \<and>
      (\<exists>letter. correct q = Some letter \<and> letter \<in> set (dict_keys (options q)))) \<and>
   length (parse_quiz_questions txt) = length (filter block_valid (text_blocks txt))"
proof
  show "\<forall>q\<in>set (parse_quiz_questions txt).
      question q \<noteq> [] \<and> length (options q) = 4 \<and> distinct (dict_keys (options q)) \<and>
      (\<exists>letter. correct q = Some letter \<and> letter \<in> set (dict_keys (options q)))"
  proof
    fix q
    assume "q \<in> set (parse_quiz_questions txt)"
    then have "q \<in> set (List.map_filter parse_block (text_blocks txt))"
      by (simp add: parse_quiz_questions_def parse_blocks_map_filter split: if_splits)
    then obtain block where "parse_block block = Some q"
      by (auto simp: List.map_filter_def)
    then show "question q \<noteq> [] \<and> length (options q) = 4 \<and> distinct (dict_keys (options q)) \<and>
      (\<exists>letter. correct q = Some letter \<and> letter \<in> set (dict_keys (options q)))"
      by (rule parse_block_Some)
  qed
  show "length (parse_quiz_questions txt) = length (filter block_valid (text_blocks txt))"
  proof (cases "txt = []")
    case True
    then show ?thesis by (simp add: parse_quiz_questions_def text_blocks_empty)
  next
    case False
    then show ?thesis
      by (simp add: parse_quiz_questions_def parse_blocks_map_filter length_map_filter
          parse_block_valid_ex)
  qed
qed

lemma scenario_parse:
  "parse_quiz_questions scenario_text =
     [\<lparr>question = ''Who opened the door?'',
       options = [(''A'', ''Alice''), (''B'', ''Bob''), (''C'', ''Carl''), (''D'', ''Dee'')],
       correct = Some ''A''\<rparr>]"
  by code_simp

theorem parse_quiz_questions_wellformed_witness:
  "parse_quiz_questions scenario_text =
     [\<lparr>question = ''Who opened the door?'',
       options = [(''A'', ''Alice''), (''B'', ''Bob''), (''C'', ''Carl''), (''D'', ''Dee'')],
       correct = Some ''A''\<rparr>] \<and>
   length (filter block_valid (text_blocks scenario_text)) = 1"
  using parse_quiz_questions_wellformed [of scenario_text] by (simp add: scenario_parse)


section \<open>Properties of \<open>_normalize_text\<close>\<close>

lemma is_space_blank: "is_space (CHR '' '')"
  by (simp add: is_space_def)

lemma is_word_not_space: "is_word c \<Longrightarrow> \<not> is_space c"
  by (auto simp: is_word_def is_alpha_def is_upper_def is_lower_def is_digit_def is_space_def)

lemma lower_char_idem: "lower_char (lower_char c) = lower_char c"
  unfolding lower_char_def by auto

lemma is_word_lower_char: "is_word c \<Longrightarrow> is_word (lower_char c)"
  unfolding lower_char_def is_word_def is_alpha_def is_upper_def is_lower_def is_digit_def
  by auto

lemma lower_char_blank: "lower_char c = CHR '' '' \<longleftrightarrow> c = CHR '' ''"
  unfolding lower_char_def by auto

lemma spaced_collapse:
  "\<forall>c\<in>set u. is_word c \<or> is_space c \<Longrightarrow> spaced is_word b (collapse_ws b u)"
proof (induction u arbitrary: b)
  case Nil
  then show ?case by simp
next
  case (Cons c u)
  then show ?case using is_word_not_space [of c] is_space_blank by auto
qed

lemma spaced_flag: "c \<noteq> CHR '' '' \<Longrightarrow> spaced P p (c # cs) = spaced P q (c # cs)"
  by simp

lemma spaced_lstrip:
  "\<forall>c. P c \<longrightarrow> \<not> is_space c \<Longrightarrow> spaced P p s \<Longrightarrow> spaced P True (lstrip s)"
proof (induction s arbitrary: p)
  case Nil
  then show ?case by (simp add: lstrip_def)
next
  case (Cons c s)
  show ?case
  proof (cases "c = CHR '' ''")
    case True
    with Cons.prems Cons.IH [of True] show ?thesis by (simp add: lstrip_def is_space_blank)
  next
    case False
    with Cons.prems have "\<not> is_space c" by auto
    with False Cons.prems show ?thesis by (simp add: lstrip_def)
  qed
qed

lemma spaced_take: "spaced P p s \<Longrightarrow> spaced P p (take n s)"
proof (induction s arbitrary: n p)
  case Nil
  then show ?case by simp
next
  case (Cons c s)
  then show ?case by (cases n) (auto split: if_splits)
qed

lemma rstrip_take: "rstrip s = take (length s - length (takeWhile is_space (rev s))) s"
  by (simp add: rstrip_def dropWhile_eq_drop rev_drop)

lemma spaced_rstrip: "spaced P p s \<Longrightarrow> spaced P p (rstrip s)"
  by (simp add: rstrip_take spaced_take)

lemma spaced_lower: "spaced is_word p s \<Longrightarrow> spaced lower_word p (lower s)"
proof (induction s arbitrary: p)
  case Nil
  then show ?case by (simp add: lower_def)
next
  case (Cons c s)
  then show ?case
    by (auto simp: lower_def lower_word_def lower_char_blank lower_char_idem
        is_word_lower_char split: if_splits)
qed

lemma rstrip_last: "rstrip s \<noteq> [] \<Longrightarrow> \<not> is_space (last (rstrip s))"
proof -
  assume ne: "rstrip s \<noteq> []"
  then have "dropWhile is_space (rev s) \<noteq> []" by (simp add: rstrip_def)
  then have "\<not> is_space (hd (dropWhile is_space (rev s)))" by (rule hd_dropWhile)
  with ne show ?thesis by (simp add: rstrip_def last_rev)
qed

lemma rstrip_id: "s = [] \<or> \<not> is_space (last s) \<Longrightarrow> rstrip s = s"
  by (cases s rule: rev_cases) (auto simp: rstrip_def)

lemma clean_text_spaced: "spaced lower_word True (clean_text s)"
proof -
  have "spaced is_word False (collapse_ws False (filter (\<lambda>c. is_word c \<or> is_space c) (strip s)))"
    by (rule spaced_collapse) simp
  then show ?thesis
    unfolding clean_text_def strip_def
    by (intro spaced_lower spaced_rstrip spaced_lstrip) (auto simp: is_word_not_space)
qed

lemma clean_text_last: "clean_text s \<noteq> [] \<Longrightarrow> last (clean_text s) \<noteq> CHR '' ''"
proof -
  define u where "u = lstrip (collapse_ws False (filter (\<lambda>c. is_word c \<or> is_space c) (strip s)))"
  assume "clean_text s \<noteq> []"
  then have ne: "rstrip u \<noteq> []" by (simp add: clean_text_def strip_def u_def lower_def)
  then have "\<not> is_space (last (rstrip u))" by (rule rstrip_last)
  then have "last (rstrip u) \<noteq> CHR '' ''" using is_space_blank by auto
  then have "lower_char (last (rstrip u)) \<noteq> CHR '' ''" by (simp add: lower_char_blank)
  with ne show ?thesis by (simp add: clean_text_def strip_def u_def lower_def last_map)
qed

lemma spaced_chars: "spaced P p s \<Longrightarrow> c \<in> set s \<Longrightarrow> c = CHR '' '' \<or> P c"
  by (induction s arbitrary: p) (auto split: if_splits)

lemma spaced_lstrip_id: "spaced lower_word True s \<Longrightarrow> lstrip s = s"
  by (cases s) (auto simp: lstrip_def lower_word_def is_word_not_space split: if_splits)

lemma spaced_collapse_id: "spaced lower_word b s \<Longrightarrow> collapse_ws b s = s"
proof (induction s arbitrary: b)
  case Nil
  then show ?case by simp
next
  case (Cons c s)
  then show ?case
    by (auto simp: lower_word_def is_word_not_space is_space_blank split: if_splits)
qed

lemma spaced_filter_id:
  "spaced lower_word b s \<Longrightarrow> filter (\<lambda>c. is_word c \<or> is_space c) s = s"
proof -
  assume "spaced lower_word b s"
  then have "\<forall>c\<in>set s. is_word c \<or> is_space c"
    using is_space_blank by (auto dest!: spaced_chars simp: lower_word_def)
  then show ?thesis by simp
qed

lemma spaced_lower_id: "spaced lower_word b s \<Longrightarrow> lower s = s"
proof -
  assume "spaced lower_word b s"
  then have "\<forall>c\<in>set s. lower_char c = c"
    by (auto dest!: spaced_chars simp: lower_word_def lower_char_blank)
  then show ?thesis by (simp add: lower_def map_idI)
qed

lemma spaced_weaken: "spaced P True s \<Longrightarrow> spaced P p s"
  by (cases s) auto

lemma rstrip_idem: "rstrip (rstrip s) = rstrip s"
  by (simp add: rstrip_def)

lemma clean_text_spaced_id:
  assumes "spaced lower_word True s"
  shows "clean_text s = rstrip s"
proof -
  have r: "spaced lower_word True (rstrip s)" using assms by (rule spaced_rstrip)
  have "strip s = rstrip s" using assms by (simp add: strip_def spaced_lstrip_id)
  moreover have "filter (\<lambda>c. is_word c \<or> is_space c) (rstrip s) = rstrip s"
    using r by (rule spaced_filter_id)
  moreover have "collapse_ws False (rstrip s) = rstrip s"
    using spaced_weaken [OF r] by (rule spaced_collapse_id)
  moreover have "strip (rstrip s) = rstrip s"
    using r by (simp add: strip_def spaced_lstrip_id rstrip_idem)
  moreover have "lower (rstrip s) = rstrip s"
    using r by (rule spaced_lower_id)
  ultimately show ?thesis by (simp add: clean_text_def)
qed

lemma strip_suffix_take: "strip_suffix s = take (length (strip_suffix s)) s"
  by (simp add: strip_suffix_def)

lemma strip_suffix_length: "length (strip_suffix s) \<le> length s"
  by (simp add: strip_suffix_def)

lemma normalize_text_heuristic: "normalize_text None s = strip_suffix (clean_text s)"
  by (simp add: normalize_text_def clean_text_def strip_suffix_def strip_def lstrip_def
      rstrip_def lower_def endswith_def)

lemma endswith_length: "endswith s p \<Longrightarrow> length p \<le> length s"
proof -
  have "startswith a b \<Longrightarrow> length b \<le> length a" for a b :: string
    by (induction a b rule: startswith.induct) auto
  from this [of "rev s" "rev p"] show "endswith s p \<Longrightarrow> length p \<le> length s"
    by (simp add: endswith_def)
qed

lemma endswith_last: "endswith s [x] \<longleftrightarrow> s \<noteq> [] \<and> last s = x"
  by (cases s rule: rev_cases) (auto simp: endswith_def)

lemma endswith_last2: "endswith s (p @ [x]) \<Longrightarrow> s \<noteq> [] \<and> last s = x"
  by (cases s rule: rev_cases) (auto simp: endswith_def)

lemma rstrip_shorter: "s \<noteq> [] \<Longrightarrow> is_space (last s) \<Longrightarrow> length (rstrip s) < length s"
proof (cases s rule: rev_cases)
  case Nil
  assume "s \<noteq> []"
  with Nil show ?thesis by simp
next
  case (snoc ys y)
  assume "is_space (last s)"
  with snoc have "rstrip s = rev (dropWhile is_space (rev ys))" by (simp add: rstrip_def)
  then have "length (rstrip s) \<le> length ys"
    using length_dropWhile_le [of is_space "rev ys"] by simp
  with snoc show ?thesis by simp
qed

lemma normalize_text_repeat:
  "normalize_text None (normalize_text None s) = normalize_text None s \<longleftrightarrow>
   \<not> (endswith (normalize_text None s) ''ed'' \<or> endswith (normalize_text None s) ''ing'' \<or>
      endswith (normalize_text None s) '' '')"
proof -
  define c where "c = normalize_text None s"
  have c: "c = take (length c) (clean_text s)"
    unfolding c_def normalize_text_heuristic by (rule strip_suffix_take)
  have sp: "spaced lower_word True c"
    by (subst c) (rule spaced_take [OF clean_text_spaced])
  have twice: "normalize_text None c = strip_suffix (rstrip c)"
    by (simp add: normalize_text_heuristic clean_text_spaced_id [OF sp])
  have "strip_suffix (rstrip c) = c \<longleftrightarrow>
        \<not> (endswith c ''ed'' \<or> endswith c ''ing'' \<or> endswith c '' '')"
  proof (cases "endswith c '' ''")
    case True
    then have "c \<noteq> []" "is_space (last c)" by (auto simp: endswith_last is_space_blank)
    then have "length (rstrip c) < length c" by (rule rstrip_shorter)
    with strip_suffix_length [of "rstrip c"] have "strip_suffix (rstrip c) \<noteq> c" by auto
    with True show ?thesis by simp
  next
    case False
    have "c = [] \<or> \<not> is_space (last c)"
    proof (cases "c = []")
      case True
      then show ?thesis by simp
    next
      case ne: False
      then have "last c \<in> set c" by simp
      with sp have "last c = CHR '' '' \<or> lower_word (last c)" by (rule spaced_chars)
      with False ne show ?thesis by (auto simp: endswith_last lower_word_def is_word_not_space)
    qed
    then have id: "rstrip c = c" by (rule rstrip_id)
    show ?thesis
    proof (cases "endswith c ''ed'' \<or> endswith c ''ing''")
      case True
      then have "length (strip_suffix c) < length c"
        using endswith_length [of c "''ed''"] endswith_length [of c "''ing''"]
        by (auto simp: strip_suffix_def)
      then have "strip_suffix c \<noteq> c" by auto
      with True id show ?thesis by auto
    next
      case no: False
      then have "strip_suffix c = c" by (simp add: strip_suffix_def)
      with no False id show ?thesis by simp
    qed
  qed
  then show ?thesis unfolding c_def [symmetric] twice .
qed

text \<open>
  Claim C3, as amended. For every ASCII string, without the linguistic backend,
  normalising the result of \<open>_normalize_text\<close> again changes nothing exactly when that
  result ends neither in "ed", nor in "ing", nor in a blank: the suffix rule strips one
  suffix per call.
\<close>

theorem normalize_text_twice:
  "is_ascii s \<Longrightarrow>
   (normalize_text None (normalize_text None s) = normalize_text None s \<longleftrightarrow>
    \<not> (endswith (normalize_text None s) ''ed'' \<or> endswith (normalize_text None s) ''ing'' \<or>
       endswith (normalize_text None s) '' ''))"
  by (rule normalize_text_repeat)

theorem normalize_text_twice_witness:
  "is_ascii ''The  Door!'' \<and>
   normalize_text None (normalize_text None ''The  Door!'') = normalize_text None ''The  Door!'' \<and>
   normalize_text None ''The  Door!'' = ''the door''"
proof -
  have a: "is_ascii ''The  Door!''" by (simp add: is_ascii_def)
  have n: "normalize_text None ''The  Door!'' = ''the door''"
    by (simp add: normalize_text_heuristic clean_text_def strip_suffix_def strip_def lstrip_def
      rstrip_def lower_def lower_char_def endswith_def is_space_def is_word_def is_alpha_def
      is_upper_def is_lower_def is_digit_def)
  from normalize_text_twice [OF a] a n show ?thesis by (simp add: endswith_def)
qed

text \<open>
  The claim as stated fails on the ASCII string "needed": it becomes "need", and "need"
  becomes "ne".
\<close>

theorem normalize_text_not_idempotent:
  "normalize_text None (normalize_text None ''needed'') \<noteq> normalize_text None ''needed''"
  by (simp add: normalize_text_heuristic clean_text_def strip_suffix_def strip_def lstrip_def
      rstrip_def lower_def lower_char_def endswith_def is_space_def is_word_def is_alpha_def
      is_upper_def is_lower_def is_digit_def)


section \<open>Properties of \<open>_truncate_story\<close>\<close>

lemma split_ws_nospace:
  "\<forall>c\<in>set x. \<not> is_space c \<Longrightarrow> split_ws w (x @ s) = split_ws (rev x @ w) s"
  by (induction x arbitrary: w) auto

lemma split_ws_blank: "w \<noteq> [] \<Longrightarrow> split_ws w (CHR '' '' # s) = rev w # split_ws [] s"
  by (simp add: is_space_def)

lemma join_Cons: "ys \<noteq> [] \<Longrightarrow> join sep (x # ys) = x @ sep @ join sep ys"
  by (cases ys) auto

lemma split_join:
  "\<forall>x\<in>set ws. x \<noteq> [] \<and> (\<forall>c\<in>set x. \<not> is_space c) \<Longrightarrow> split (join '' '' ws) = ws"
proof (induction ws)
  case Nil
  then show ?case by (simp add: split_def)
next
  case (Cons x ws)
  show ?case
  proof (cases ws)
    case Nil
    with Cons.prems show ?thesis
      using split_ws_nospace [of x "[]" "[]"] by (simp add: split_def)
  next
    case (Cons y ys)
    with Cons.prems Cons.IH show ?thesis
      using split_ws_nospace [of x "[]" "CHR '' '' # join '' '' ws"]
      by (simp add: split_def split_ws_blank del: split_ws.simps)
  qed
qed

lemma split_ws_words:
  "\<forall>c\<in>set w. \<not> is_space c \<Longrightarrow>
   \<forall>x\<in>set (split_ws w s). x \<noteq> [] \<and> (\<forall>c\<in>set x. \<not> is_space c)"
proof (induction s arbitrary: w)
  case Nil
  then show ?case by auto
next
  case (Cons c cs)
  show ?case
  proof (cases "is_space c")
    case True
    with Cons.prems Cons.IH [of "[]"] show ?thesis by auto
  next
    case False
    with Cons.prems Cons.IH [of "c # w"] show ?thesis by auto
  qed
qed

lemma split_words: "\<forall>x\<in>set (split s). x \<noteq> [] \<and> (\<forall>c\<in>set x. \<not> is_space c)"
  using split_ws_words [of "[]" s] by (simp add: split_def)

lemma split_ws_pending: "w \<noteq> [] \<Longrightarrow> 1 \<le> length (split_ws w s)"
  by (induction s arbitrary: w) auto

lemma split_ws_take: "length (split_ws w (take n s)) \<le> length (split_ws w s)"
proof (induction s arbitrary: n w)
  case Nil
  then show ?case by simp
next
  case (Cons c cs)
  show ?case
  proof (cases n)
    case 0
    then show ?thesis using split_ws_pending [of w "c # cs"] by (cases "w = []") auto
  next
    case (Suc m)
    then show ?thesis using Cons.IH by auto
  qed
qed

lemma join_snoc: "join sep (xs @ [x]) @ y = join sep (xs @ [x @ y])"
  by (induction xs) (auto simp: join_Cons)

lemma rfind_None: "rfind c s = None \<longleftrightarrow> c \<notin> set s"
  by (induction s) (auto split: option.splits)

lemma rfind_Some: "rfind c s = Some i \<Longrightarrow> i < length s \<and> s ! i = c"
  by (induction s arbitrary: i) (auto split: option.splits if_splits)

lemma truncate_story_long:
  fixes story :: string and N :: int
  defines "t \<equiv> join '' '' (take (nat N) (split story))"
  defines "r \<equiv> truncate_story story N"
  assumes a: "1 \<le> N" "N < int (length (split story))"
  shows "int (length (split r)) \<le> N \<and>
           (CHR ''.'' \<in> set t \<longrightarrow> r \<noteq> [] \<and> last r = CHR ''.'' \<and> (\<exists>n. r = take n t)) \<and>
           (CHR ''.'' \<notin> set t \<longrightarrow> r = t @ ''...'')"
proof -
  define ws where "ws = take (nat N) (split story)"
  from a have "nat N \<le> length (split story)" by linarith
  then have len: "length ws = nat N" by (simp add: ws_def)
  have words: "\<forall>x\<in>set ws. x \<noteq> [] \<and> (\<forall>c\<in>set x. \<not> is_space c)"
    using split_words [of story] by (auto simp: ws_def dest: in_set_takeD)
  have t: "t = join '' '' ws" by (simp add: t_def ws_def)
  have st: "split t = ws" unfolding t by (rule split_join [OF words])
  have r: "r = (case rfind (CHR ''.'') t of Some i \<Rightarrow> take (i + 1) t | None \<Rightarrow> t @ ''...'')"
    unfolding r_def t_def using a by (simp add: truncate_story_def slice_to_def Let_def)
  show ?thesis
  proof (cases "rfind (CHR ''.'') t")
    case None
    then have no: "CHR ''.'' \<notin> set t" by (simp add: rfind_None)
    from None r have rr: "r = t @ ''...''" by simp
    from len a have "ws \<noteq> []" by auto
    then obtain xs x where ws: "ws = xs @ [x]" by (metis rev_exhaust)
    have "r = join '' '' (xs @ [x @ ''...''])"
      unfolding rr t ws by (rule join_snoc)
    moreover have "\<forall>y\<in>set (xs @ [x @ ''...'']). y \<noteq> [] \<and> (\<forall>c\<in>set y. \<not> is_space c)"
      using words by (auto simp: ws is_space_def)
    ultimately have "split r = xs @ [x @ ''...'']" by (simp add: split_join)
    then have "length (split r) = nat N" using len ws by simp
    with a no rr show ?thesis by simp
  next
    case (Some i)
    then have i: "i < length t" "t ! i = CHR ''.''" by (auto dest: rfind_Some)
    then have yes: "CHR ''.'' \<in> set t" by (metis nth_mem)
    from Some r have rr: "r = take (i + 1) t" by simp
    have "length (split r) \<le> length (split t)"
      unfolding rr split_def by (rule split_ws_take)
    then have c1: "int (length (split r)) \<le> N" using st len a by simp
    have "r \<noteq> []" using rr i by auto
    moreover have "last r = CHR ''.''"
      using rr i by (simp add: take_Suc_conv_app_nth)
    ultimately show ?thesis using c1 yes rr by blast
  qed
qed

text \<open>
  What the function does: with a word limit \<open>N \<ge> 1\<close> and a story of more than \<open>N\<close> words
  it returns at most \<open>N\<close> words; when the \<open>N\<close>-word prefix contains a period the result is
  the prefix up to its last period, and otherwise it is the \<open>N\<close>-word prefix followed by
  "...". A story of at most \<open>N\<close> words is returned unchanged.
\<close>

lemma truncate_story_period_law:
  "(1 \<le> N \<and> N < int (length (split story)) \<longrightarrow>
      int (length (split (truncate_story story N))) \<le> N \<and>
      (CHR ''.'' \<in> set (join '' '' (take (nat N) (split story))) \<longrightarrow>
         truncate_story story N \<noteq> [] \<and> last (truncate_story story N) = CHR ''.'' \<and>
         (\<exists>n. truncate_story story N = take n (join '' '' (take (nat N) (split story))))) \<and>
      (CHR ''.'' \<notin> set (join '' '' (take (nat N) (split story))) \<longrightarrow>
         truncate_story story N = join '' '' (take (nat N) (split story)) @ ''...'')) \<and>
   (int (length (split story)) \<le> N \<longrightarrow> truncate_story story N = story)"
proof (intro conjI impI)
  assume "int (length (split story)) \<le> N"
  then show "truncate_story story N = story" by (simp add: truncate_story_def)
next
  assume "1 \<le> N \<and> N < int (length (split story))"
  then show "int (length (split (truncate_story story N))) \<le> N"
    using truncate_story_long [of N story] by simp
next
  assume "1 \<le> N \<and> N < int (length (split story))"
    and "CHR ''.'' \<in> set (join '' '' (take (nat N) (split story)))"
  then show "truncate_story story N \<noteq> []" "last (truncate_story story N) = CHR ''.''"
    "\<exists>n. truncate_story story N = take n (join '' '' (take (nat N) (split story)))"
    using truncate_story_long [of N story] by simp_all
next
  assume "1 \<le> N \<and> N < int (length (split story))"
    and "CHR ''.'' \<notin> set (join '' '' (take (nat N) (split story)))"
  then show "truncate_story story N = join '' '' (take (nat N) (split story)) @ ''...''"
    using truncate_story_long [of N story] by simp
qed

text \<open>
  Claim C4. The claim fails where the only sentence boundaries within the first \<open>N\<close>
  words are exclamation or question marks: the function looks for a period only. For the
  story "Look out!" followed by 99 times "run" and the word limit 100, the first 100
  words hold the sentence boundary "!", and the result is the 100-word prefix with "..."
  appended instead of "Look out!". The same happens for a small limit: "Hi there! How are
  you doing today" with limit 4 becomes "Hi there! How are...".
\<close>

theorem truncate_story_exclamation:
  "length (split exclaim_story) = 101 \<and>
   CHR ''!'' \<in> set (join '' '' (take 100 (split exclaim_story))) \<and>
   truncate_story exclaim_story 100 =
     ''Look out! '' @ join '' '' (replicate 98 ''run'') @ ''...'' \<and>
   truncate_story ''Hi there! How are you doing today'' 4 = ''Hi there! How are...''"
  by code_simp

section \<open>Properties of the question synthesizer\<close>

lemma shuffle_from_length: "length (fst (shuffle_from i xs g)) = length xs"
proof (induction i arbitrary: xs g)
  case 0
  then show ?case by simp
next
  case (Suc i)
  obtain j g' where d: "randbelow (Suc (Suc i)) g = (j, g')"
    by (cases "randbelow (Suc (Suc i)) g")
  with Suc [of "swap xs (Suc i) j" g'] show ?case by (simp add: swap_def)
qed

lemma random_shuffle_length: "random_shuffle xs g = (ys, g') \<Longrightarrow> length ys = length xs"
  using shuffle_from_length [of "length xs - 1" xs g] by (simp add: random_shuffle_def)

lemma letter_options_Inr: "length xs = 4 \<Longrightarrow> \<exists>d. letter_options xs = Inr d \<and> length d = 4"
  by (simp add: letter_options_def)

lemma opening_phrase_question_returns: "\<exists>r. opening_phrase_question els used g = Inr r"
proof (cases "(case el_first_sentence els of None \<Rightarrow> [] | Some s \<Rightarrow> s) \<noteq> [] \<and>
     length (split (case el_first_sentence els of None \<Rightarrow> [] | Some s \<Rightarrow> s)) > 2")
  case False
  then show ?thesis by (auto simp: opening_phrase_question_def Let_def)
next
  case True
  define first_phrase where
    "first_phrase = join '' '' (take 4 (split (case el_first_sentence els of None \<Rightarrow> [] | Some s \<Rightarrow> s)))"
  obtain decoys g1 where s: "safe_sample opening_decoys 3 opening_decoys g = Inr (decoys, g1)"
    "length decoys = 3"
    using safe_sample_returns [of opening_decoys 3 opening_decoys g] by blast
  obtain choices g2 where sh: "random_shuffle (first_phrase # decoys) g1 = (choices, g2)"
    by (cases "random_shuffle (first_phrase # decoys) g1")
  then have "length choices = 4" using s by (auto dest: random_shuffle_length)
  then obtain opts where "letter_options choices = Inr opts"
    using letter_options_Inr by blast
  with True s sh show ?thesis
    by (simp add: opening_phrase_question_def Let_def first_phrase_def)
qed

lemma length_question_returns: "\<exists>q g'. length_question word_count g = Inr (q, g')"
proof -
  define ranges where "ranges = [''About '' @ str_nat word_count @ '' words'',
              ''About '' @ str_nat (max 10 (word_count - 40)) @ '' words'',
              ''About '' @ str_nat (word_count + 30) @ '' words'',
              ''About '' @ str_nat (max 10 (word_count + 60)) @ '' words'']"
  obtain shuffled g1 where sh: "random_shuffle ranges g = (shuffled, g1)"
    by (cases "random_shuffle ranges g")
  then have "length shuffled = 4" by (auto dest: random_shuffle_length simp: ranges_def)
  then obtain opts where "letter_options shuffled = Inr opts"
    using letter_options_Inr by blast
  with sh show ?thesis by (simp add: length_question_def ranges_def)
qed

lemma item_Inr: "i < length xs \<Longrightarrow> item xs i = Inr (xs ! i)"
  by (simp add: item_def)

lemma not_mentioned_question_returns:
  "\<exists>q g'. not_mentioned_question not_mentioned g = Inr (q, g')"
proof -
  obtain picked g1 where p: "safe_sample not_mentioned 1 possible_not g = Inr (picked, g1)"
    "length picked = 1"
    using safe_sample_returns [of not_mentioned 1 possible_not g] by blast
  then have it: "item picked 0 = Inr (picked ! 0)" by (simp add: item_Inr)
  define pool where "pool = filter (\<lambda>w. lower w \<noteq> lower (picked ! 0)) possible_not"
  obtain others g2 where o: "safe_sample pool 3 possible_not g1 = Inr (others, g2)"
    "length others = 3"
    using safe_sample_returns [of pool 3 possible_not g1] by blast
  obtain shuffled g3 where sh: "random_shuffle ((picked ! 0) # others) g2 = (shuffled, g3)"
    by (cases "random_shuffle ((picked ! 0) # others) g2")
  then have "length (map title shuffled) = 4" using o by (auto dest: random_shuffle_length)
  then obtain opts where "letter_options (map title shuffled) = Inr opts"
    using letter_options_Inr by blast
  with p it o sh show ?thesis by (simp add: not_mentioned_question_def pool_def)
qed

lemma create_contextual_question_returns:
  "\<exists>q used' g'. create_contextual_question els used g = Inr (Some q, used', g')"
proof -
  obtain r used1 g1 where o: "opening_phrase_question els used g = Inr (r, used1, g1)"
    using opening_phrase_question_returns [of els used g] by (metis prod_cases3)
  show ?thesis
  proof (cases r)
    case (Some q)
    with o show ?thesis by (simp add: create_contextual_question_def)
  next
    case None
    define story_words where "story_words = get_list (el_story_words els)"
    define not_mentioned where
      "not_mentioned = filter (\<lambda>w. \<not> contains (lower (join '' '' story_words)) w) possible_not"
    obtain q2 g2 where l: "length_question (length story_words) g1 = Inr (q2, g2)"
      using length_question_returns by blast
    obtain q3 g3 where n: "not_mentioned_question not_mentioned g1 = Inr (q3, g3)"
      using not_mentioned_question_returns by blast
    from o None l n show ?thesis
      by (simp add: create_contextual_question_def Let_def story_words_def not_mentioned_def)
  qed
qed

lemma fill_contextual_returns:
  "length questions \<le> num_needed \<Longrightarrow>
   \<exists>filled used' g'. fill_contextual els num_needed questions used g = Inr (filled, used', g') \<and>
     length filled = num_needed"
proof (induction els num_needed questions used g rule: fill_contextual.induct)
  case (1 els num_needed questions used g)
  show ?case
  proof (cases "length questions < num_needed")
    case False
    with 1 show ?thesis by (simp add: fill_contextual.simps [of els num_needed questions])
  next
    case True
    obtain ctx used1 g1 where c: "create_contextual_question els used g = Inr (Some ctx, used1, g1)"
      using create_contextual_question_returns by blast
    from True have "length (questions @ [ctx]) \<le> num_needed" by simp
    from "1.IH" [OF True c refl refl refl this] c True show ?thesis
      by (simp add: fill_contextual.simps [of els num_needed questions])
  qed
qed

lemma run_bank_length:
  "run_bank self story els num_needed bank questions used g = (qs, used', g') \<Longrightarrow>
   length questions \<le> num_needed \<Longrightarrow>
   length qs \<le> num_needed \<and> length qs \<le> length questions + length bank"
proof (induction bank arbitrary: questions used g)
  case Nil
  then show ?case by simp
next
  case (Cons gen gens)
  show ?case
  proof (cases "length questions \<ge> num_needed")
    case True
    with Cons.prems show ?thesis by simp
  next
    case False
    show ?thesis
    proof (cases "run_generator self story els gen used g")
      case (Inl e)
      with False Cons.prems Cons.IH [of questions used g] show ?thesis by auto
    next
      case (Inr r)
      obtain res used1 g1 where r: "r = (res, used1, g1)" by (cases r)
      show ?thesis
      proof (cases res)
        case None
        with Inr r False Cons.prems Cons.IH [of questions used1 g1] show ?thesis by auto
      next
        case (Some q)
        with Inr r False Cons.prems Cons.IH [of "questions @ [q]" used1 g1] show ?thesis by auto
      qed
    qed
  qed
qed

lemma pad_with_bounds: "length (pad_with filler k result) = max k (length result)"
proof (cases "length result \<le> k")
  case True
  then show ?thesis by (simp add: pad_with_length)
next
  case False
  then show ?thesis by (simp add: pad_with.simps [of filler k result])
qed

lemma clean_question_returns: "\<exists>q'. clean_question q = Inr q'"
proof -
  have "length (pad_with ''Not stated'' 4 (take 4 (dict_values (options q)))) = 4"
    by (simp add: pad_with_bounds)
  then obtain opts where
    "letter_options (pad_with ''Not stated'' 4 (take 4 (dict_values (options q)))) = Inr opts"
    using letter_options_Inr by blast
  then show ?thesis by (simp add: clean_question_def)
qed

lemma clean_questions_returns:
  "\<exists>cleaned'. clean_questions qs cleaned = Inr cleaned' \<and>
     length cleaned' = length cleaned + length qs"
proof (induction qs arbitrary: cleaned)
  case Nil
  then show ?case by simp
next
  case (Cons q qs)
  obtain q' where q: "clean_question q = Inr q'" using clean_question_returns by blast
  from Cons [of "cleaned @ [q']"] q show ?case by auto
qed

lemma generate_unique_questions_returns:
  "\<exists>qs g'. generate_unique_questions self story els g = Inr (qs, g') \<and>
     length qs = num_questions_per_round self"
proof -
  define n where "n = num_questions_per_round self"
  obtain bank g1 where sh: "random_shuffle candidate_generators g = (bank, g1)"
    by (cases "random_shuffle candidate_generators g")
  obtain questions used g2 where rb: "run_bank self story els n bank [] {} g1 = (questions, used, g2)"
    by (cases "run_bank self story els n bank [] {} g1")
  then have "length questions \<le> n" using run_bank_length by fastforce
  then obtain filled used1 g3 where
    f: "fill_contextual els n questions used g2 = Inr (filled, used1, g3)" "length filled = n"
    using fill_contextual_returns by blast
  obtain cleaned where c: "clean_questions (take n filled) [] = Inr cleaned"
    "length cleaned = length (take n filled)"
    using clean_questions_returns [of "take n filled" "[]"] by auto
  with sh rb f show ?thesis by (simp add: generate_unique_questions_def n_def [symmetric])
qed


section \<open>The claims about the quiz generation\<close>

lemma ask_element_used:
  "ask_element self main decoys texts used g = Inr (r, used', g') \<Longrightarrow>
   (if r \<noteq> None then lower main \<notin> used \<and> used' = insert (lower main) used else used' = used)"
  by (auto simp: ask_element_def split: if_splits sum.splits prod.splits)

lemma element_generators_used:
  assumes "run_generator self story els s used g = Inr (r, used', g')"
  shows "if element_strategy s \<and> r \<noteq> None
         then lower (asked_element self story els s) \<notin> used \<and>
              used' = insert (lower (asked_element self story els s)) used
         else used' = used"
proof (cases s)
  case QName
  with assms show ?thesis
    by (auto simp: q_name_def element_strategy_def split: list.splits dest!: ask_element_used)
next
  case QAction
  with assms show ?thesis
    by (auto simp: q_action_def element_strategy_def Let_def
        split: list.splits sum.splits if_splits option.splits dest!: ask_element_used)
next
  case QObject
  with assms show ?thesis
    by (auto simp: q_object_def element_strategy_def split: list.splits dest!: ask_element_used)
next
  case QPlace
  with assms show ?thesis
    by (auto simp: q_place_def element_strategy_def split: list.splits dest!: ask_element_used)
next
  case QSequence
  with assms show ?thesis
    by (auto simp: q_sequence_def element_strategy_def Let_def
        split: list.splits sum.splits prod.splits)
next
  case QTrueFalse
  with assms show ?thesis
    by (auto simp: q_true_false_def element_strategy_def Let_def
        split: list.splits sum.splits if_splits)
next
  case QNotMentioned
  with assms show ?thesis
    by (auto simp: q_not_mentioned_def element_strategy_def Let_def
        split: list.splits sum.splits prod.splits if_splits)
next
  case QInference
  with assms show ?thesis
    by (auto simp: q_inference_def element_strategy_def Let_def
        split: list.splits sum.splits prod.splits if_splits option.splits)
qed

lemma opening_phrase_question_used:
  "opening_phrase_question els used g = Inr (r, used', g') \<Longrightarrow>
   (if r \<noteq> None
    then opening_record r \<and> lower (opening_phrase els) \<notin> used \<and>
         used' = insert (lower (opening_phrase els)) used
    else used' = used)"
  by (auto simp: opening_phrase_question_def opening_record_def opening_phrase_def Let_def
      split: if_splits sum.splits prod.splits)

lemma length_question_text:
  "length_question n g = Inr (q, g') \<Longrightarrow> question q = ''Approximately how long is this story?''"
  by (auto simp: length_question_def split: sum.splits prod.splits)

lemma not_mentioned_question_text:
  "not_mentioned_question nm g = Inr (q, g') \<Longrightarrow>
   question q = ''Which of these is NOT mentioned in the story?''"
  by (auto simp: not_mentioned_question_def split: sum.splits prod.splits)

lemma create_contextual_question_used:
  assumes "create_contextual_question els used g = Inr (r, used', g')"
  shows "if opening_record r
         then lower (opening_phrase els) \<notin> used \<and>
              used' = insert (lower (opening_phrase els)) used
         else used' = used"
proof (cases "opening_phrase_question els used g")
  case (Inl e)
  with assms show ?thesis by (simp add: create_contextual_question_def)
next
  case (Inr t)
  obtain r1 used1 g1 where t: "t = (r1, used1, g1)" by (cases t)
  note o = opening_phrase_question_used [OF Inr [unfolded t]]
  show ?thesis
  proof (cases r1)
    case (Some q)
    with o have a: "opening_record r1" "lower (opening_phrase els) \<notin> used"
      "used1 = insert (lower (opening_phrase els)) used" by simp_all
    from assms Inr t Some have "r = r1" "used' = used1"
      by (simp_all add: create_contextual_question_def)
    with a show ?thesis by simp
  next
    case None
    with o have u: "used1 = used" by simp
    from assms Inr t None u have "used' = used"
      by (auto simp: create_contextual_question_def Let_def split: if_splits sum.splits)
    moreover from assms Inr t None have "\<not> opening_record r"
      by (auto simp: create_contextual_question_def Let_def opening_record_def generic_question_def
          split: if_splits sum.splits dest: length_question_text not_mentioned_question_text)
    ultimately show ?thesis by simp
  qed
qed

lemma maya_name:
  "run_generator plain_game [] maya_elements QName {} [] =
     Inr (Some \<lparr>question = ''Who is the main character in the story?'',
                options = [(''A'', ''Aarav''), (''B'', ''Aditi''), (''C'', ''Advik''), (''D'', ''Maya'')],
                correct = Some ''D''\<rparr>, {''maya''}, [])"
  by code_simp


lemma maya_name_used:
  "run_generator plain_game [] maya_elements QName {''maya''} [] = Inr (None, {''maya''}, [])"
  by code_simp

lemma names_at_most_five:
  "\<exists>ns. el_names (extract_story_elements self story) = Some ns \<and> length ns \<le> 5"
  by (simp add: extract_story_elements_def Let_def)

text \<open>
  Claim C5. The \<open>names\<close> field always has at most 5 entries, but it is not sorted by
  descending length: the sorted list goes through \<open>list(set(names))\<close> once more, which
  yields the set's iteration order. For the story "Alexander met Bob." and a set order
  that iterates "Bob" first, the field is \<open>["Bob", "Alexander"]\<close>.
\<close>

theorem extract_names_order:
  "(\<exists>ns. el_names (extract_story_elements self story) = Some ns \<and> length ns \<le> 5) \<and>
   el_names (extract_story_elements plain_game ''Alexander met Bob.'') =
     Some [''Bob'', ''Alexander'']"
proof
  show "\<exists>ns. el_names (extract_story_elements self story) = Some ns \<and> length ns \<le> 5"
    by (rule names_at_most_five)
  show "el_names (extract_story_elements plain_game ''Alexander met Bob.'') =
     Some [''Bob'', ''Alexander'']"
    by code_simp
qed

text \<open>
  Claim C6, as amended. The character, action, object and setting strategies and the
  opening-phrase contextual question return a record only when the lower-cased element
  they ask about is not yet in the used-elements set, and add exactly that string then;
  every other strategy and every other contextual question leaves the set as it is.
\<close>

theorem used_elements_discipline:
  "(run_generator self story els s used g = Inr (r, used', g') \<longrightarrow>
      (if element_strategy s \<and> r \<noteq> None
       then lower (asked_element self story els s) \<notin> used \<and>
            used' = insert (lower (asked_element self story els s)) used
       else used' = used)) \<and>
   (create_contextual_question els used g = Inr (r, used', g') \<longrightarrow>
      (if opening_record r
       then lower (opening_phrase els) \<notin> used \<and>
            used' = insert (lower (opening_phrase els)) used
       else used' = used))"
  using element_generators_used create_contextual_question_used by blast

theorem used_elements_discipline_witness:
  "run_generator plain_game [] maya_elements QName {} [] =
     Inr (Some \<lparr>question = ''Who is the main character in the story?'',
                options = [(''A'', ''Aarav''), (''B'', ''Aditi''), (''C'', ''Advik''), (''D'', ''Maya'')],
                correct = Some ''D''\<rparr>, {''maya''}, []) \<and>
   lower (asked_element plain_game [] maya_elements QName) \<notin> {} \<and>
   {''maya''} = insert (lower (asked_element plain_game [] maya_elements QName)) {} \<and>
   run_generator plain_game [] maya_elements QName {''maya''} [] = Inr (None, {''maya''}, [])"
  using used_elements_discipline [of plain_game "[]" maya_elements QName "{}" "[]" _ "{''maya''}" "[]"]
    maya_name maya_name_used
  by (simp add: element_strategy_def)

text \<open>
  The claim as stated fails: for the empty story, three questions per round and a random
  source that always draws 0, the quiz holds the same record twice.
\<close>

theorem repeated_question_counterexample:
  "generate_unique_questions plain_game [] (extract_story_elements plain_game []) [] =
     Inr ([\<lparr>question = ''Which of the following is NOT mentioned in the story?'',
             options = [(''A'', ''Glacier''), (''B'', ''Police Station''),
                        (''C'', ''Motorcycle''), (''D'', ''Spaceship'')],
             correct = Some ''D''\<rparr>,
           not_mentioned_record, not_mentioned_record], [])"
  by code_simp

text \<open>
  Claim C7. With \<open>names = ["Maya"]\<close>, \<open>objects = []\<close> and \<open>actions = []\<close> the true/false
  generator raises \<open>IndexError\<close> instead of returning "no question": the default of
  \<open>elements.get('objects', [None])\<close> only covers an absent key. The orchestrator catches
  the exception, and the call still returns the requested number of records.
\<close>

theorem q_true_false_raises:
  "q_true_false maya_elements used g = Inl IndexError \<and>
   (\<exists>qs g'. generate_unique_questions self story maya_elements g = Inr (qs, g') \<and>
      length qs = num_questions_per_round self)"
proof
  show "q_true_false maya_elements used g = Inl IndexError"
    by (simp add: q_true_false_def maya_elements_def get_list_def first_item_def)
  show "\<exists>qs g'. generate_unique_questions self story maya_elements g = Inr (qs, g') \<and>
      length qs = num_questions_per_round self"
    by (rule generate_unique_questions_returns)
qed

text \<open>
  Claim C8. \<open>generate_quiz_questions\<close> returns the parse of the first of its three
  attempts that yields exactly \<open>num_questions_per_round\<close> records, and the result of
  \<open>get_fallback_quiz\<close> when no attempt does.
\<close>

theorem generate_quiz_questions_attempts:
  "generate_quiz_questions self ollama story g =
     (let n = num_questions_per_round self;
          prompt = quiz_prompt n (extract_story_elements self story) story;
          parsed = (\<lambda>attempt. parse_quiz_questions (ollama prompt 400 attempt))
      in if length (parsed 0) = n then Inr (parsed 0, g)
         else if length (parsed 1) = n then Inr (parsed 1, g)
         else if length (parsed 2) = n then Inr (parsed 2, g)
         else get_fallback_quiz self story g)"
  by (simp add: generate_quiz_questions_def Let_def)

lemma fill_contextual_done:
  "num_needed \<le> length questions \<Longrightarrow>
   fill_contextual els num_needed questions used g = Inr (questions, used, g)"
  by (simp add: fill_contextual.simps [of els num_needed questions])

text \<open>
  Claim C9. \<open>generate_unique_questions\<close> returns, for every story, elements map and
  random source, and the list it returns has at most \<open>num_questions_per_round\<close> records.
  The loop over the bank adds at most one record per generator of the bank of eight, and
  the contextual loop returns with the list filled up to the requested number (its
  termination is proved at its definition, by the measure
  \<open>num_needed - len(questions)\<close>).
\<close>

theorem generate_unique_questions_bounded:
  "(\<exists>qs g'. generate_unique_questions self story els g = Inr (qs, g') \<and>
      length qs \<le> num_questions_per_round self) \<and>
   length (fst (random_shuffle candidate_generators g)) = 8 \<and>
   length (fst (run_bank self story els num_needed bank [] {} g)) \<le> min num_needed (length bank) \<and>
   (\<exists>filled used' g'. fill_contextual els num_needed questions used g = Inr (filled, used', g') \<and>
      length filled = max num_needed (length questions))"
proof (intro conjI)
  show "\<exists>qs g'. generate_unique_questions self story els g = Inr (qs, g') \<and>
      length qs \<le> num_questions_per_round self"
    using generate_unique_questions_returns [of self story els g] by auto
  show "length (fst (random_shuffle candidate_generators g)) = 8"
    using random_shuffle_length [of candidate_generators g]
    by (cases "random_shuffle candidate_generators g") (simp add: candidate_generators_def)
  show "length (fst (run_bank self story els num_needed bank [] {} g)) \<le> min num_needed (length bank)"
    using run_bank_length [of self story els num_needed bank "[]" "{}" g]
    by (cases "run_bank self story els num_needed bank [] {} g") simp
  show "\<exists>filled used' g'. fill_contextual els num_needed questions used g = Inr (filled, used', g') \<and>
      length filled = max num_needed (length questions)"
  proof (cases "length questions \<le> num_needed")
    case True
    with fill_contextual_returns [OF True, of els used g] show ?thesis by (simp add: max_def)
  next
    case False
    then show ?thesis by (simp add: fill_contextual_done max_def)
  qed
qed

text \<open>
  Claim C10. \<open>create_contextual_question\<close> returns a record for every elements map,
  used-elements set and random source: it never raises and never returns \<open>None\<close>. So
  \<open>generate_unique_questions\<close> returns exactly \<open>num_questions_per_round\<close> records, also
  for the empty story.
\<close>

theorem create_contextual_question_total:
  "(\<exists>q used' g'. create_contextual_question els used g = Inr (Some q, used', g')) \<and>
   (\<exists>qs g'. generate_unique_questions self story els g = Inr (qs, g') \<and>
      length qs = num_questions_per_round self) \<and>
   (\<exists>qs g'. generate_unique_questions self [] (extract_story_elements self []) g = Inr (qs, g') \<and>
      length qs = num_questions_per_round self)"
  using create_contextual_question_returns generate_unique_questions_returns by blast

end
